theory Spec2Isabelle
  imports Main "HOL-Library.AList"
begin

section \<open>JavaScript values\<close>

text \<open>
  The reader keeps its configuration in an untyped settings object, so the model works
  on JavaScript values. An object is the list of its own enumerable properties in the
  order they were added (every key once for an object that a literal or \<open>JSON.parse\<close>
  builds). Objects are plain data and are values here: the model follows no accessor
  properties, no frozen objects and no two references to one object. \<open>JNum n\<close> is the
  number nearest to the integer \<open>n\<close> (the integer itself up to \<open>2^53\<close>, the infinite
  number from \<open>2^1024\<close> on); no number with a fraction is read or written by the code
  modelled here. A string is a list of characters, one for each code unit.
\<close>

datatype jsval =
    JUndefined
  | JNull
  | JBool bool
  | JNum int
  | JStr string
  | JArr "jsval list"
  | JObj "(string \<times> jsval) list"

type_synonym obj = "(string \<times> jsval) list"

text \<open>
  What a run can end in besides a value. \<open>TypeError\<close> and \<open>URIError\<close> are the
  exceptions of the language. \<open>OutsideModel\<close> is not an exception: it marks a run that
  leaves the fragment of the language described here (a merge into an array or into a
  primitive value, a font size beyond the integers that numbers hold exactly).
\<close>

datatype error = TypeError | URIError | OutsideModel

text \<open>The test of \<open>if (v)\<close>, \<open>v && ...\<close> and \<open>v || ...\<close>.\<close>

fun truthy :: "jsval \<Rightarrow> bool" where
  "truthy JUndefined = False"
| "truthy JNull = False"
| "truthy (JBool b) = b"
| "truthy (JNum n) = (n \<noteq> 0)"
| "truthy (JStr s) = (s \<noteq> [])"
| "truthy (JArr xs) = True"
| "truthy (JObj ps) = True"

text \<open>\<open>a || b\<close> on values.\<close>

definition js_or :: "jsval \<Rightarrow> jsval \<Rightarrow> jsval" where
  "js_or a b = (if truthy a then a else b)"

subsection \<open>Numbers as text\<close>

definition digit_char :: "nat \<Rightarrow> char" where
  "digit_char d = ''0123456789'' ! d"

fun show_nat :: "nat \<Rightarrow> string" where
  "show_nat n = (if n < 10 then [digit_char n] else show_nat (n div 10) @ [digit_char (n mod 10)])"

declare show_nat.simps [simp del]

definition show_int :: "int \<Rightarrow> string" where
  "show_int i = (if i < 0 then CHR ''-'' # show_nat (nat (- i)) else show_nat (nat i))"

text \<open>
  The number nearest to a natural number: a number has 53 binary digits, the digits
  below them are rounded off to the nearest, a tie to the even neighbour. \<open>None\<close> is
  the infinite number.
\<close>

fun bits :: "nat \<Rightarrow> nat" where
  "bits n = (if n = 0 then 0 else Suc (bits (n div 2)))"

declare bits.simps [simp del]

definition to_double :: "nat \<Rightarrow> nat option" where
  "to_double m =
     (if bits m \<le> 53 then Some m
      else (let sh = bits m - 53;
                q = m div 2 ^ sh;
                r = m mod 2 ^ sh;
                half = 2 ^ (sh - 1);
                v = (if half < r \<or> (r = half \<and> odd q) then q + 1 else q) * 2 ^ sh
            in if 2 ^ 1024 \<le> v then None else Some v))"

text \<open>
  The text of a number \<open>x\<close>, for an integer above zero: the fewest digits \<open>s\<close> such
  that \<open>s\<close> followed by zeros up to the length \<open>n\<close> is a number that rounds to \<open>x\<close>, of
  two such \<open>s\<close> the nearer one. \<open>digits_at x k\<close> looks for \<open>s\<close> with \<open>k\<close> digits at
  the length of \<open>x\<close> itself; the power of ten above \<open>x\<close> is the one candidate that is
  longer. Up to the length 21 the digits are written out with their zeros, beyond it with
  an exponent.
\<close>

definition digits_at :: "nat \<Rightarrow> nat \<Rightarrow> nat option" where
  "digits_at x k =
     (let p = 10 ^ (length (show_nat x) - k);
          lo = x div p;
          hi = lo + 1;
          lo_ok = (to_double (lo * p) = Some x);
          hi_ok = (hi < 10 ^ k \<and> to_double (hi * p) = Some x)
      in if lo_ok \<and> hi_ok then
           (if x - lo * p < hi * p - x \<or> (x - lo * p = hi * p - x \<and> even lo)
            then Some lo else Some hi)
         else if lo_ok then Some lo
         else if hi_ok then Some hi
         else None)"

definition shortest_digits :: "nat \<Rightarrow> nat \<times> nat" where
  "shortest_digits x =
     (let nd = length (show_nat x)
      in if to_double (10 ^ nd) = Some x then (1, nd + 1)
         else (case List.map_filter (digits_at x) [1..<nd + 1] of
                 s # _ \<Rightarrow> (s, nd)
               | [] \<Rightarrow> (x, nd)))"

definition show_number :: "nat \<Rightarrow> string" where
  "show_number x =
     (if x = 0 then ''0''
      else (let (s, n) = shortest_digits x; ds = show_nat s; k = length ds
            in if n \<le> 21 then ds @ replicate (n - k) CHR ''0''
               else (if k = 1 then ds else hd ds # CHR ''.'' # tl ds) @ ''e+'' @ show_nat (n - 1)))"

definition number_to_string :: "int \<Rightarrow> string" where
  "number_to_string i =
     (case to_double (nat \<bar>i\<bar>) of
        None \<Rightarrow> (if i < 0 then ''-Infinity'' else ''Infinity'')
      | Some x \<Rightarrow> (if i < 0 \<and> x \<noteq> 0 then CHR ''-'' # show_number x else show_number x))"

text \<open>
  The string a value is converted to when it is used as a storage key or is appended to
  a string. An array joins its elements with commas, \<open>null\<close> and \<open>undefined\<close>
  elements giving the empty string.
\<close>

fun join_comma :: "string list \<Rightarrow> string" where
  "join_comma [] = []"
| "join_comma [s] = s"
| "join_comma (s # t # ss) = s @ '','' @ join_comma (t # ss)"

fun to_string :: "jsval \<Rightarrow> string" where
  "to_string JUndefined = ''undefined''"
| "to_string JNull = ''null''"
| "to_string (JBool b) = (if b then ''true'' else ''false'')"
| "to_string (JNum n) = number_to_string n"
| "to_string (JStr s) = s"
| "to_string (JArr xs) =
     join_comma (map (\<lambda>x. if x = JUndefined \<or> x = JNull then [] else to_string x) xs)"
| "to_string (JObj ps) = ''[object Object]''"

subsection \<open>Properties\<close>

text \<open>
  The members every plain object inherits from \<open>Object.prototype\<close>. Reading one of
  them from an object that has no own property of that name gives the inherited member,
  never \<open>undefined\<close>.
\<close>

definition object_prototype :: "string list" where
  "object_prototype =
     [''constructor'', ''hasOwnProperty'', ''isPrototypeOf'', ''propertyIsEnumerable'',
      ''toLocaleString'', ''toString'', ''valueOf'', ''__proto__'',
      ''__defineGetter__'', ''__defineSetter__'', ''__lookupGetter__'', ''__lookupSetter__'']"

text \<open>
  \<open>get ps k\<close> is \<open>obj.k\<close> for a name \<open>k\<close> outside \<open>object_prototype\<close>: the own
  property, or \<open>undefined\<close>. The code reads only such names by name (\<open>restore\<close>,
  \<open>bookKey\<close>, \<open>styles\<close>, \<open>fontSize\<close>, ...).
\<close>

definition get :: "obj \<Rightarrow> string \<Rightarrow> jsval" where
  "get ps k = (case map_of ps k of Some v \<Rightarrow> v | None \<Rightarrow> JUndefined)"

text \<open>\<open>obj[prop] === void 0\<close> for any name, the inherited members included.\<close>

definition prop_undefined :: "obj \<Rightarrow> string \<Rightarrow> bool" where
  "prop_undefined ps k =
     (case map_of ps k of Some v \<Rightarrow> v = JUndefined | None \<Rightarrow> k \<notin> set object_prototype)"

text \<open>
  \<open>v.k\<close> on any value, for the names the code reads by name. Reading a property of
  \<open>undefined\<close> or \<open>null\<close> throws; a primitive value or an array has none of these
  names.
\<close>

fun member :: "jsval \<Rightarrow> string \<Rightarrow> error + jsval" where
  "member JUndefined k = Inl TypeError"
| "member JNull k = Inl TypeError"
| "member (JObj ps) k = Inr (get ps k)"
| "member v k = Inr JUndefined"

text \<open>
  The own enumerable properties a \<open>for (prop in source)\<close> loop visits, with their
  values: the properties of an object, the indices of an array or of a string, nothing
  for any other value. The host visits the keys of an object that are array indices
  before its other keys; the model visits all in the order of the list, which differs
  only in the order in which new properties are added to the target.
\<close>

fun enumerable :: "jsval \<Rightarrow> (string \<times> jsval) list" where
  "enumerable (JObj ps) = ps"
| "enumerable (JArr xs) = zip (map show_nat [0..<length xs]) xs"
| "enumerable (JStr s) = zip (map show_nat [0..<length s]) (map (\<lambda>c. JStr [c]) s)"
| "enumerable v = []"

section \<open>The host\<close>

text \<open>
  The functions of the browser and of the libraries the page loads that the reader calls
  and this repository does not define. They are parameters of the model.
  \<^item> \<open>md5\<close>: the hash of the book identifier, as hexadecimal text.
  \<^item> \<open>decodeURIComponent\<close>: \<open>None\<close> when it throws \<open>URIError\<close>.
  \<^item> \<open>JSON_parse\<close>: \<open>None\<close> when it throws \<open>SyntaxError\<close>.
  \<^item> \<open>JSON_stringify\<close>: the text of a value.
  \<^item> \<open>location_hash\<close>: what \<open>window.location.hash\<close> reads after
    \<open>history.pushState\<close> was given that relative URL.
  \<^item> \<open>console_exception\<close>: whether the console has the method \<open>exception\<close>, which
    is no standard one; where it is missing, calling it throws \<open>TypeError\<close>.
\<close>

record host =
  md5 :: "jsval \<Rightarrow> string"
  decodeURIComponent :: "string \<Rightarrow> string option"
  JSON_parse :: "string \<Rightarrow> jsval option"
  JSON_stringify :: "jsval \<Rightarrow> string"
  location_hash :: "string \<Rightarrow> string"
  console_exception :: bool

section \<open>The reader\<close>

text \<open>The calls the reader makes on the rendition, the page and the key event, in order.\<close>

datatype timer = ReleasePrev | ReleaseNext

datatype call =
    NewBook jsval
  | RenderTo
  | Display "jsval option"
  | ThemesFontSize string
  | RenditionNext
  | RenditionPrev
  | PreventDefault
  | AddClassPrev
  | AddClassNext
  | RemoveClassPrev
  | RemoveClassNext
  | SetTimeout timer nat
  | ConsoleException

text \<open>
  The fields of a \<open>Reader\<close> with the parts of the page it reads and writes:
  \<open>search\<close> is \<open>window.location.search\<close> as the constructor read it,
  \<open>storage\<close> is \<open>localStorage\<close> (\<open>None\<close> when the page has none), \<open>hash\<close> is
  \<open>window.location.hash\<close>, \<open>pushed\<close> the entries given to \<open>history.pushState\<close>.
  \<open>book\<close> is \<open>None\<close> while \<open>this.book\<close> is \<open>undefined\<close> and else holds the value
  of \<open>this.book.package\<close>; \<open>currentLocation\<close> is what the rendition answers to
  \<open>currentLocation()\<close>.
\<close>

record reader =
  settings :: obj
  search :: string
  book :: "jsval option"
  currentLocation :: jsval
  currentLocationCfi :: jsval
  keylock :: bool
  calls :: "call list"
  storage :: "(string \<rightharpoonup> string) option"
  hash :: string
  pushed :: "string list"

subsection \<open>Common: defaults\<close>

text \<open>
  The body of the inner loop of \<open>defaults\<close>:
  \<^verbatim>\<open>if (obj[prop] === void 0) obj[prop] = source[prop];\<close>
  on a plain object. The assignment is reached only where the read gave \<open>undefined\<close>, so
  the name is an own property or is not inherited, and the assignment writes the own
  property.
\<close>

definition fill :: "obj \<Rightarrow> string \<times> jsval \<Rightarrow> obj" where
  "fill ps kv = (if prop_undefined ps (fst kv) then AList.update (fst kv) (snd kv) ps else ps)"

text \<open>The inner loop over one source, and the outer loop over \<open>arguments[1..]\<close>.\<close>

definition fill_from :: "obj \<Rightarrow> jsval \<Rightarrow> obj" where
  "fill_from ps source = foldl fill ps (enumerable source)"

definition defaults_obj :: "obj \<Rightarrow> jsval list \<Rightarrow> obj" where
  "defaults_obj ps sources = foldl fill_from ps sources"

text \<open>
  \<open>defaults(obj, ...sources)\<close> for any first argument. With no property to visit the
  loops do nothing and \<open>obj\<close> is returned as it is. Otherwise the first read
  \<open>obj[prop]\<close> throws for \<open>undefined\<close> and \<open>null\<close>; a merge into an array or a
  primitive value is outside the model.
\<close>

definition defaults :: "jsval \<Rightarrow> jsval list \<Rightarrow> error + jsval" where
  "defaults target sources =
     (case target of
        JObj ps \<Rightarrow> Inr (JObj (defaults_obj ps sources))
      | _ \<Rightarrow> if concat (map enumerable sources) = [] then Inr target
             else if target = JUndefined \<or> target = JNull then Inl TypeError
             else Inl OutsideModel)"

text \<open>
  A pair of a source is settled in a target when the loop body leaves the target as it
  is: the property reads as defined, or it is the own property with that very value.
  Every step keeps settled pairs settled and settles its own pair, so a second pass over
  the same source changes nothing.
\<close>

definition settled :: "obj \<Rightarrow> string \<times> jsval \<Rightarrow> bool" where
  "settled t kv = (\<not> prop_undefined t (fst kv) \<or> map_of t (fst kv) = Some (snd kv))"

text \<open>
  An assignment \<open>obj[k] = v\<close> on a plain object: the own property is written in place
  or added last. Under the name \<open>__proto__\<close> the code assigns only the string of a
  query parameter, which the inherited setter ignores unless the object has an own
  property of that name.
\<close>

definition assign :: "obj \<Rightarrow> string \<Rightarrow> jsval \<Rightarrow> obj" where
  "assign ps k v =
     (if k = ''__proto__'' \<and> map_of ps k = None then ps else AList.update k v ps)"

subsection \<open>init: the settings\<close>

text \<open>The second argument of the call of \<open>defaults\<close> in \<open>init\<close>.\<close>

definition builtin_defaults :: "jsval \<Rightarrow> obj" where
  "builtin_defaults bookPath =
     [(''bookPath'', bookPath),
      (''restore'', JBool False),
      (''reload'', JBool False),
      (''bookmarks'', JUndefined),
      (''annotations'', JUndefined),
      (''contained'', JUndefined),
      (''bookKey'', JUndefined),
      (''styles'', JUndefined),
      (''reflowText'', JBool False),
      (''pagination'', JBool False),
      (''history'', JBool True),
      (''language'', JStr ''en'')]"

text \<open>\<open>s.split(c)\<close> for a separator of one character: never the empty list.\<close>

fun split :: "char \<Rightarrow> string \<Rightarrow> string list" where
  "split c [] = [[]]"
| "split c (x # xs) =
     (if x = c then [] # split c xs else (x # hd (split c xs)) # tl (split c xs))"

text \<open>\<open>this.search.slice(1).split("&")\<close>\<close>

definition parameters :: "string \<Rightarrow> string list" where
  "parameters s = split CHR ''&'' (drop 1 s)"

text \<open>\<open>split[0]\<close> and \<open>split[1] || ''\<close> of \<open>p.split('=')\<close>.\<close>

definition param_name :: "string \<Rightarrow> string" where
  "param_name p = hd (split CHR ''='' p)"

definition param_value :: "string \<Rightarrow> string" where
  "param_value p = (case tl (split CHR ''='' p) of [] \<Rightarrow> [] | v # _ \<Rightarrow> v)"

text \<open>The callback of \<open>this.parameters.forEach\<close>, and the loop.\<close>

definition apply_parameter :: "host \<Rightarrow> obj \<Rightarrow> string \<Rightarrow> error + obj" where
  "apply_parameter h ps p =
     (case decodeURIComponent h (param_value p) of
        None \<Rightarrow> Inl URIError
      | Some d \<Rightarrow> Inr (assign ps (param_name p) (JStr d)))"

fun apply_parameters :: "host \<Rightarrow> obj \<Rightarrow> string list \<Rightarrow> error + obj" where
  "apply_parameters h ps [] = Inr ps"
| "apply_parameters h ps (p # rest) =
     (case apply_parameter h ps p of
        Inl e \<Rightarrow> Inl e
      | Inr ps' \<Rightarrow> apply_parameters h ps' rest)"

text \<open>
  The first two statements of \<open>init\<close>: the merge of the caller's overrides with the
  built-in defaults, then the query parameters.
\<close>

definition init_settings :: "host \<Rightarrow> string \<Rightarrow> jsval \<Rightarrow> jsval \<Rightarrow> error + obj" where
  "init_settings h srch bookPath opts =
     (case defaults (js_or opts (JObj [])) [JObj (builtin_defaults bookPath)] of
        Inl e \<Rightarrow> Inl e
      | Inr (JObj ps) \<Rightarrow>
          if srch \<noteq> [] then apply_parameters h ps (parameters srch) else Inr ps
      | Inr _ \<Rightarrow> Inl OutsideModel)"

subsection \<open>Settings\<close>

definition setBookKey :: "host \<Rightarrow> jsval \<Rightarrow> reader \<Rightarrow> jsval \<times> reader" where
  "setBookKey h identifier r =
     (let r' = (if get (settings r) ''bookKey'' = JUndefined
                then r\<lparr>settings :=
                        assign (settings r) ''bookKey'' (JStr (''epubjs-reader:'' @ md5 h identifier))\<rparr>
                else r)
      in (get (settings r') ''bookKey'', r'))"

text \<open>The key under which \<open>localStorage\<close> is read and written: \<open>bookKey\<close> as a string.\<close>

definition storage_key :: "reader \<Rightarrow> string" where
  "storage_key r = to_string (get (settings r) ''bookKey'')"

definition isSaved :: "reader \<Rightarrow> bool" where
  "isSaved r = (case storage r of None \<Rightarrow> False | Some st \<Rightarrow> st (storage_key r) \<noteq> None)"

definition removeSavedSettings :: "reader \<Rightarrow> bool \<times> reader" where
  "removeSavedSettings r =
     (if \<not> isSaved r then (False, r)
      else (True, r\<lparr>storage := map_option (\<lambda>st. st(storage_key r := None)) (storage r)\<rparr>))"

text \<open>
  \<open>JSON.parse(localStorage.getItem(key))\<close> inside the \<open>try\<close>: \<open>getItem\<close> answers
  \<open>null\<close> for a key with no record, and \<open>JSON.parse(null)\<close> is \<open>null\<close>. \<open>None\<close> is
  the parse that throws.
\<close>

definition parse_item :: "host \<Rightarrow> string option \<Rightarrow> jsval option" where
  "parse_item h item = (case item of None \<Rightarrow> Some JNull | Some t \<Rightarrow> JSON_parse h t)"

text \<open>
  \<open>this.settings.styles = this.defaults(this.settings.styles || {}, stored.styles)\<close>
\<close>

definition merge_styles :: "jsval \<Rightarrow> reader \<Rightarrow> error + reader" where
  "merge_styles sty r =
     (case defaults (js_or (get (settings r) ''styles'') (JObj [])) [sty] of
        Inl e \<Rightarrow> Inl e
      | Inr t \<Rightarrow> Inr (r\<lparr>settings := assign (settings r) ''styles'' t\<rparr>))"

text \<open>
  The branch of \<open>applySavedSettings\<close> under \<open>if (stored)\<close>: the styles, then the rest.
  The last merge is \<open>defaults\<close> on the settings object, a plain object.
\<close>

definition merge_saved :: "jsval \<Rightarrow> reader \<Rightarrow> error + reader" where
  "merge_saved stored r =
     (case member stored ''styles'' of
        Inl e \<Rightarrow> Inl e
      | Inr sty \<Rightarrow>
          (case (if truthy sty then merge_styles sty r else Inr r) of
             Inl e \<Rightarrow> Inl e
           | Inr r2 \<Rightarrow> Inr (r2\<lparr>settings := defaults_obj (settings r2) [stored]\<rparr>)))"

text \<open>
  \<open>applySavedSettings\<close>. The \<open>catch\<close> logs with \<open>console.exception\<close> and leaves
  \<open>stored\<close> undefined, so the test of \<open>stored\<close> fails.
\<close>

definition applySavedSettings :: "host \<Rightarrow> reader \<Rightarrow> error + bool \<times> reader" where
  "applySavedSettings h r =
     (case storage r of
        None \<Rightarrow> Inr (False, r)
      | Some st \<Rightarrow>
          (case parse_item h (st (storage_key r)) of
             None \<Rightarrow>
               if console_exception h
               then Inr (False, r\<lparr>calls := calls r @ [ConsoleException]\<rparr>)
               else Inl TypeError
           | Some stored \<Rightarrow>
               if truthy stored then
                 (case merge_saved stored r of
                    Inl e \<Rightarrow> Inl e
                  | Inr r2 \<Rightarrow> Inr (True, r2))
               else Inr (False, r)))"

text \<open>
  \<open>saveSettings\<close>: first the location, read from the rendition when there is a book,
  then the test of \<open>localStorage\<close>.
\<close>

definition capture_location :: "reader \<Rightarrow> error + reader" where
  "capture_location r =
     (if book r \<noteq> None then
        (case member (currentLocation r) ''start'' of
           Inl e \<Rightarrow> Inl e
         | Inr start \<Rightarrow>
             if truthy start then
               (case member start ''cfi'' of
                  Inl e \<Rightarrow> Inl e
                | Inr c \<Rightarrow>
                    Inr (r\<lparr>settings := assign (settings r) ''previousLocationCfi'' c\<rparr>))
             else Inr r)
      else Inr r)"

definition saveSettings :: "host \<Rightarrow> reader \<Rightarrow> error + bool \<times> reader" where
  "saveSettings h r =
     (case capture_location r of
        Inl e \<Rightarrow> Inl e
      | Inr r1 \<Rightarrow>
          (case storage r1 of
             None \<Rightarrow> Inr (False, r1)
           | Some st \<Rightarrow>
               Inr (True,
                    r1\<lparr>storage :=
                         Some (st(storage_key r1 \<mapsto> JSON_stringify h (JObj (settings r1))))\<rparr>)))"

definition restore_enabled :: "obj \<Rightarrow> bool" where
  "restore_enabled s = truthy (get s ''restore'')"

definition unload :: "host \<Rightarrow> reader \<Rightarrow> error + reader" where
  "unload h r =
     (if restore_enabled (settings r) \<and> storage r \<noteq> None then
        (case saveSettings h r of Inl e \<Rightarrow> Inl e | Inr res \<Rightarrow> Inr (snd res))
      else Inr r)"

definition hashChanged :: "reader \<Rightarrow> reader" where
  "hashChanged r = r\<lparr>calls := calls r @ [Display (Some (JStr (drop 1 (hash r))))]\<rparr>"

definition setLocation :: "host \<Rightarrow> jsval \<Rightarrow> reader \<Rightarrow> reader" where
  "setLocation h cfi r =
     (let cfiFragment = ''#'' @ to_string cfi;
          r1 = r\<lparr>currentLocationCfi := cfi\<rparr>
      in if truthy (get (settings r1) ''history'') \<and> hash r1 \<noteq> cfiFragment
         then r1\<lparr>pushed := pushed r1 @ [cfiFragment], hash := location_hash h cfiFragment\<rparr>
         else r1)"

subsection \<open>init: the whole\<close>

text \<open>
  After the settings: the book key, the restore, the defaults of \<open>bookmarks\<close>,
  \<open>annotations\<close> and \<open>styles\<close>, the book and its rendition, and the first display. The
  book has no package until the engine has loaded it. The subscriptions to the engine's
  events are not part of the model.
\<close>

definition init :: "host \<Rightarrow> jsval \<Rightarrow> jsval \<Rightarrow> reader \<Rightarrow> error + reader" where
  "init h bookPath opts r =
     (case init_settings h (search r) bookPath opts of
        Inl e \<Rightarrow> Inl e
      | Inr s0 \<Rightarrow>
          (let r1 = snd (setBookKey h (get s0 ''bookPath'') (r\<lparr>settings := s0\<rparr>))
           in case (if restore_enabled (settings r1) \<and> isSaved r1
                    then (case applySavedSettings h r1 of
                            Inl e \<Rightarrow> Inl e
                          | Inr res \<Rightarrow> Inr (snd res))
                    else Inr r1) of
                Inl e \<Rightarrow> Inl e
              | Inr r2 \<Rightarrow>
                  (let s3 = (if get (settings r2) ''bookmarks'' = JUndefined
                             then assign (settings r2) ''bookmarks'' (JArr [])
                             else settings r2);
                       s4 = (if get s3 ''annotations'' = JUndefined
                             then assign s3 ''annotations'' (JArr [])
                             else s3);
                       s5 = assign s4 ''styles''
                              (js_or (get s4 ''styles'') (JObj [(''fontSize'', JStr ''100%'')]));
                       cfi = get s5 ''previousLocationCfi''
                   in Inr (r2\<lparr>settings := s5,
                               book := Some JUndefined,
                               calls := calls r2 @
                                 [NewBook (get s5 ''bookPath''), RenderTo,
                                  Display (if truthy cfi then Some cfi else None)]\<rparr>))))"

subsection \<open>Keys\<close>

text \<open>The fields of a key event that \<open>arrowKeys\<close> reads.\<close>

record key_event =
  ctrlKey :: bool
  metaKey :: bool
  key :: string

text \<open>
  \<open>parseInt(s)\<close> with no radix: white space is skipped, then a sign, then \<open>0x\<close> or
  \<open>0X\<close> selects radix 16, then the longest run of digits is read. \<open>None\<close> is
  \<open>NaN\<close>.
\<close>

definition is_space :: "char \<Rightarrow> bool" where
  "is_space c = (c \<in> set [CHR 0x09, CHR 0x0A, CHR 0x0B, CHR 0x0C, CHR 0x0D, CHR 0x20, CHR 0xA0])"

definition digit_of :: "char \<Rightarrow> nat option" where
  "digit_of = map_of
     [(CHR ''0'', 0), (CHR ''1'', 1), (CHR ''2'', 2), (CHR ''3'', 3), (CHR ''4'', 4),
      (CHR ''5'', 5), (CHR ''6'', 6), (CHR ''7'', 7), (CHR ''8'', 8), (CHR ''9'', 9),
      (CHR ''a'', 10), (CHR ''b'', 11), (CHR ''c'', 12), (CHR ''d'', 13), (CHR ''e'', 14),
      (CHR ''f'', 15),
      (CHR ''A'', 10), (CHR ''B'', 11), (CHR ''C'', 12), (CHR ''D'', 13), (CHR ''E'', 14),
      (CHR ''F'', 15)]"

definition is_digit :: "nat \<Rightarrow> char \<Rightarrow> bool" where
  "is_digit radix c = (case digit_of c of None \<Rightarrow> False | Some d \<Rightarrow> d < radix)"

definition digits_value :: "nat \<Rightarrow> string \<Rightarrow> nat" where
  "digits_value radix ds =
     foldl (\<lambda>acc c. acc * radix + (case digit_of c of None \<Rightarrow> 0 | Some d \<Rightarrow> d)) 0 ds"

definition parseInt :: "string \<Rightarrow> int option" where
  "parseInt s =
     (let t = dropWhile is_space s;
          negative = (take 1 t = ''-'');
          u = (if take 1 t = ''-'' \<or> take 1 t = ''+'' then drop 1 t else t);
          hex = (take 2 u = ''0x'' \<or> take 2 u = ''0X'');
          radix = (if hex then 16 else 10);
          ds = takeWhile (is_digit radix) (if hex then drop 2 u else u)
      in if ds = [] then None
         else Some ((if negative then - 1 else 1) * int (digits_value radix ds)))"

text \<open>
  \<open>fontSize += d\<close> on the number just parsed. The host's numbers are exact on the
  integers up to \<open>2^53\<close>; beyond, the sum is outside the model.
\<close>

definition add_interval :: "int option \<Rightarrow> int \<Rightarrow> error + int option" where
  "add_interval n d =
     (case n of
        None \<Rightarrow> Inr None
      | Some i \<Rightarrow> if \<bar>i\<bar> \<le> 9007199254740990 then Inr (Some (i + d)) else Inl OutsideModel)"

text \<open>\<open>fontSize + "%"\<close>\<close>

definition percent :: "int option \<Rightarrow> string" where
  "percent n = (case n of None \<Rightarrow> ''NaN'' | Some i \<Rightarrow> show_int i) @ ''%''"

text \<open>
  \<open>parseInt(this.settings.styles.fontSize.slice(0, -1))\<close>: a string and an array have
  \<open>slice\<close>; \<open>null\<close> has no properties and any other value has no \<open>slice\<close> to call.
\<close>

definition parse_font_size :: "jsval \<Rightarrow> error + int option" where
  "parse_font_size v =
     (case v of
        JStr s \<Rightarrow> Inr (parseInt (butlast s))
      | JArr xs \<Rightarrow> Inr (parseInt (to_string (JArr (butlast xs))))
      | _ \<Rightarrow> Inl TypeError)"

text \<open>
  The \<open>switch\<close> on the key under the modifier: the calls made, and the new value of
  \<open>fontSize\<close>.
\<close>

definition font_switch :: "string \<Rightarrow> int option \<Rightarrow> error + call list \<times> int option" where
  "font_switch k n =
     (if k = ''='' then
        (case add_interval n 2 of
           Inl e \<Rightarrow> Inl e
         | Inr m \<Rightarrow> Inr ([PreventDefault, ThemesFontSize (percent m)], m))
      else if k = ''-'' then
        (case add_interval n (- 2) of
           Inl e \<Rightarrow> Inl e
         | Inr m \<Rightarrow> Inr ([PreventDefault, ThemesFontSize (percent m)], m))
      else if k = ''0'' then
        Inr ([PreventDefault, ThemesFontSize ''100%''], Some 100)
      else
        (case add_interval n 0 of
           Inl e \<Rightarrow> Inl e
         | Inr m \<Rightarrow> Inr ([], m)))"

text \<open>
  The block under \<open>if (MOD)\<close> after the test of \<open>styles\<close> against \<open>undefined\<close>.
  \<open>styles\<close> is written in place, so it stays the value of the settings' own property.
  A primitive value for \<open>styles\<close> has no \<open>fontSize\<close> and refuses the assignment of one
  (the code is strict); an array would take it as a named property, which the model has
  not.
\<close>

definition font_keys :: "key_event \<Rightarrow> reader \<Rightarrow> error + reader" where
  "font_keys e r =
     (case get (settings r) ''styles'' of
        JObj sp \<Rightarrow>
          (let sp1 = (if get sp ''fontSize'' = JUndefined
                      then assign sp ''fontSize'' (JStr ''100%'') else sp)
           in case parse_font_size (get sp1 ''fontSize'') of
                Inl x \<Rightarrow> Inl x
              | Inr n \<Rightarrow>
                  (case font_switch (key e) n of
                     Inl x \<Rightarrow> Inl x
                   | Inr res \<Rightarrow>
                       Inr (r\<lparr>settings :=
                               assign (settings r) ''styles''
                                 (JObj (assign sp1 ''fontSize'' (JStr (percent (snd res))))),
                             calls := calls r @ fst res\<rparr>)))
      | JArr xs \<Rightarrow> Inl OutsideModel
      | _ \<Rightarrow> Inl TypeError)"

text \<open>
  \<open>this.book.package.metadata.direction\<close>: a \<open>TypeError\<close> while there is no book, no
  package or no metadata.
\<close>

definition direction :: "reader \<Rightarrow> error + jsval" where
  "direction r =
     (case book r of
        None \<Rightarrow> Inl TypeError
      | Some package \<Rightarrow>
          (case member package ''metadata'' of
             Inl e \<Rightarrow> Inl e
           | Inr m \<Rightarrow> member m ''direction''))"

text \<open>The second \<open>switch\<close>: the arrow keys.\<close>

definition arrows :: "key_event \<Rightarrow> reader \<Rightarrow> error + reader" where
  "arrows e r =
     (if key e = ''ArrowLeft'' then
        (case direction r of
           Inl x \<Rightarrow> Inl x
         | Inr d \<Rightarrow>
             Inr (r\<lparr>keylock := True,
                     calls := calls r @
                       [if d = JStr ''rtl'' then RenditionNext else RenditionPrev,
                        AddClassPrev, SetTimeout ReleasePrev 100, PreventDefault]\<rparr>))
      else if key e = ''ArrowRight'' then
        (case direction r of
           Inl x \<Rightarrow> Inl x
         | Inr d \<Rightarrow>
             Inr (r\<lparr>keylock := True,
                     calls := calls r @
                       [if d = JStr ''rtl'' then RenditionPrev else RenditionNext,
                        AddClassNext, SetTimeout ReleaseNext 100, PreventDefault]\<rparr>))
      else Inr r)"

text \<open>The callbacks given to \<open>setTimeout\<close>.\<close>

fun fire :: "timer \<Rightarrow> reader \<Rightarrow> reader" where
  "fire ReleasePrev r = r\<lparr>keylock := False, calls := calls r @ [RemoveClassPrev]\<rparr>"
| "fire ReleaseNext r = r\<lparr>keylock := False, calls := calls r @ [RemoveClassNext]\<rparr>"

definition arrowKeys :: "key_event \<Rightarrow> reader \<Rightarrow> error + reader" where
  "arrowKeys e r =
     (if ctrlKey e \<or> metaKey e then
        (if get (settings r) ''styles'' = JUndefined then Inr r
         else (case font_keys e r of
                 Inl x \<Rightarrow> Inl x
               | Inr r1 \<Rightarrow> arrows e r1))
      else arrows e r)"

text \<open>\<open>this.settings.styles.fontSize\<close>, the stored font size.\<close>

definition font_size :: "reader \<Rightarrow> error + jsval" where
  "font_size r = member (get (settings r) ''styles'') ''fontSize''"

section \<open>Worked examples\<close>

definition example_key :: string where
  "example_key = ''epubjs-reader:eb0dcf9369e00a342ccba2112c75d90e''"

definition example_text :: string where
  "example_text = ''{\"styles\":{\"fontSize\":\"120%\"},\"language\":\"fr\"}''"

definition example_record :: jsval where
  "example_record =
     JObj [(''styles'', JObj [(''fontSize'', JStr ''120%'')]), (''language'', JStr ''fr'')]"

text \<open>
  A host for the examples. Each function gives what a browser gives on the arguments of
  the examples: a text without \<open>%\<close> decodes to itself, \<open>{oops\<close> is no JSON text, the
  hash is the one of the example's book path, and a fragment is read back from the
  location as it was pushed but for a space, which comes back as \<open>%20\<close>, and for the
  fragment that is empty.
\<close>

definition example_host :: host where
  "example_host =
     \<lparr>md5 = (\<lambda>v. if v = JStr ''moby-dick.epub'' then ''eb0dcf9369e00a342ccba2112c75d90e'' else []),
      decodeURIComponent = (\<lambda>s. if CHR ''%'' \<in> set s then None else Some s),
      JSON_parse =
        (\<lambda>t. if t = ''null'' then Some JNull
             else if t = example_text then Some example_record
             else None),
      JSON_stringify = (\<lambda>v. ''{}''),
      location_hash =
        (\<lambda>u. if u = ''#'' then [] else concat (map (\<lambda>c. if c = CHR '' '' then ''%20'' else [c]) u)),
      console_exception = True\<rparr>"

text \<open>A reader as the constructor leaves it, on a page with an empty \<open>localStorage\<close>.\<close>

definition example_reader :: reader where
  "example_reader =
     \<lparr>settings =
        [(''bookPath'', JStr ''moby-dick.epub''),
         (''restore'', JBool True),
         (''bookmarks'', JArr []),
         (''annotations'', JArr []),
         (''bookKey'', JStr example_key),
         (''styles'', JObj [(''fontSize'', JStr ''100%'')]),
         (''history'', JBool True),
         (''language'', JStr ''en'')],
      search = [],
      book = Some (JObj [(''metadata'', JObj [(''direction'', JStr ''rtl'')])]),
      currentLocation = JObj [(''start'', JObj [(''cfi'', JStr ''epubcfi(/6/4!/4/2)'')])],
      currentLocationCfi = JUndefined,
      keylock = False,
      calls = [],
      storage = Some Map.empty,
      hash = [],
      pushed = []\<rparr>"

section \<open>Properties of the merge\<close>

lemma map_of_fill:
  "map_of (fill t kv) k = (if k = fst kv \<and> prop_undefined t k then Some (snd kv) else map_of t k)"
  by (auto simp: fill_def AList.update_conv')

lemma prop_undefined_fill_other:
  "k \<noteq> fst kv \<Longrightarrow> prop_undefined (fill t kv) k = prop_undefined t k"
  by (simp add: prop_undefined_def map_of_fill)

text \<open>One pass over a source with distinct keys, read key by key.\<close>

lemma map_of_foldl_fill:
  "distinct (map fst src) \<Longrightarrow>
   map_of (foldl fill t src) k =
     (if prop_undefined t k \<and> k \<in> fst ` set src then map_of src k else map_of t k)"
proof (induction src arbitrary: t)
  case Nil
  then show ?case by simp
next
  case (Cons kv rest)
  show ?case
  proof (cases "k = fst kv")
    case True
    with Cons.prems have "k \<notin> fst ` set rest" by auto
    with Cons True show ?thesis by (cases kv) (auto simp: map_of_fill)
  next
    case False
    with Cons show ?thesis
      by (cases kv) (auto simp: map_of_fill prop_undefined_fill_other)
  qed
qed

text \<open>A property that reads as defined is never written.\<close>

lemma map_of_foldl_fill_defined:
  "\<not> prop_undefined t k \<Longrightarrow> map_of (foldl fill t xs) k = map_of t k"
proof (induction xs arbitrary: t)
  case Nil
  then show ?case by simp
next
  case (Cons kv xs)
  have "\<not> prop_undefined (fill t kv) k"
  proof (cases "k = fst kv")
    case True
    with Cons.prems have "fill t kv = t" by (simp add: fill_def)
    with Cons.prems show ?thesis by simp
  next
    case False
    with Cons.prems show ?thesis by (simp add: prop_undefined_fill_other)
  qed
  then have "map_of (foldl fill (fill t kv) xs) k = map_of (fill t kv) k"
    by (rule Cons.IH)
  with Cons.prems show ?case by (simp add: map_of_fill)
qed

lemma get_defaults_obj_defined:
  assumes "get t k \<noteq> JUndefined"
  shows "get (defaults_obj t [v]) k = get t k"
proof -
  from assms have "\<not> prop_undefined t k"
    by (auto simp: get_def prop_undefined_def split: option.splits)
  then show ?thesis
    by (simp add: get_def defaults_obj_def fill_from_def map_of_foldl_fill_defined)
qed

lemma fill_settled: "settled t kv \<Longrightarrow> fill t kv = t"
  by (auto simp: settled_def fill_def AList.update_triv)

lemma settled_fill_self: "settled (fill t kv) kv"
  by (auto simp: settled_def map_of_fill prop_undefined_def)

lemma settled_fill: "settled t kv \<Longrightarrow> settled (fill t kv') kv"
  by (auto simp: settled_def map_of_fill prop_undefined_def split: option.splits if_splits)

lemma settled_foldl: "settled t kv \<Longrightarrow> settled (foldl fill t xs) kv"
  by (induction xs arbitrary: t) (auto simp: settled_fill)

lemma settled_all: "kv \<in> set xs \<Longrightarrow> settled (foldl fill t xs) kv"
  by (induction xs arbitrary: t) (auto simp: settled_foldl settled_fill_self)

lemma foldl_fill_settled: "(\<And>kv. kv \<in> set xs \<Longrightarrow> settled t kv) \<Longrightarrow> foldl fill t xs = t"
  by (induction xs) (auto simp: fill_settled)

lemma foldl_fill_idem: "foldl fill (foldl fill t xs) xs = foldl fill t xs"
  by (rule foldl_fill_settled) (rule settled_all)

lemma defaults_obj_idem: "defaults_obj (defaults_obj t [v]) [v] = defaults_obj t [v]"
  by (simp add: defaults_obj_def fill_from_def foldl_fill_idem)

lemma defaults_idem: "defaults t [v] = Inr t' \<Longrightarrow> defaults t' [v] = Inr t'"
  by (cases t) (auto simp: defaults_def defaults_obj_idem split: if_splits)

lemma defaults_truthy: "truthy t \<Longrightarrow> defaults t [v] = Inr t' \<Longrightarrow> truthy t'"
  by (cases t) (auto simp: defaults_def split: if_splits)

section \<open>Properties of assignments and of the query\<close>

lemma map_of_assign:
  "map_of (assign ps k v) k' =
     (if k = ''__proto__'' \<and> map_of ps k = None then map_of ps k'
      else if k' = k then Some v else map_of ps k')"
  by (auto simp: assign_def AList.update_conv')

lemma get_assign:
  "k \<noteq> ''__proto__'' \<Longrightarrow> get (assign ps k v) k' = (if k' = k then v else get ps k')"
  by (simp add: get_def assign_def AList.update_conv')

lemma assign_same: "map_of ps k = Some v \<Longrightarrow> assign ps k v = ps"
  by (simp add: assign_def AList.update_triv)

lemma get_Some: "get ps k \<noteq> JUndefined \<Longrightarrow> map_of ps k = Some (get ps k)"
  by (auto simp: get_def split: option.splits)

lemma split_not_Nil: "split c s \<noteq> []"
  by (induction s) auto

lemma split_no_separator: "c \<notin> set s \<Longrightarrow> split c s = [s]"
  by (induction s) auto

text \<open>
  After the loop over the parameters a name other than \<open>__proto__\<close> holds the decoded
  value of the last parameter of that name, and a name that no parameter has is as before.
\<close>

lemma apply_parameters_lookup:
  "apply_parameters h s ps = Inr s' \<Longrightarrow> n \<noteq> ''__proto__'' \<Longrightarrow>
   map_of s' n =
     (case map_of (rev (map (\<lambda>p. (param_name p, param_value p)) ps)) n of
        None \<Rightarrow> map_of s n
      | Some v \<Rightarrow> map_option JStr (decodeURIComponent h v))"
proof (induction ps arbitrary: s)
  case Nil
  then show ?case by simp
next
  case (Cons p rest)
  from Cons.prems(1) obtain d where
    d: "decodeURIComponent h (param_value p) = Some d" and
    rest: "apply_parameters h (assign s (param_name p) (JStr d)) rest = Inr s'"
    by (auto simp: apply_parameter_def split: option.splits sum.splits)
  note ih = Cons.IH[OF rest Cons.prems(2)]
  show ?case
    using Cons.prems(2) d
    by (simp add: ih map_add_def map_of_assign split: option.splits)
qed

lemma apply_parameters_unnamed:
  "apply_parameters h s ps = Inr s' \<Longrightarrow> n \<notin> param_name ` set ps \<Longrightarrow> map_of s' n = map_of s n"
proof (induction ps arbitrary: s)
  case Nil
  then show ?case by simp
next
  case (Cons p rest)
  from Cons.prems(1) obtain d where
    rest: "apply_parameters h (assign s (param_name p) (JStr d)) rest = Inr s'"
    by (auto simp: apply_parameter_def split: option.splits sum.splits)
  from Cons.prems(2) have "n \<notin> param_name ` set rest" and "n \<noteq> param_name p" by auto
  with Cons.IH[OF rest] show ?case by (simp add: map_of_assign)
qed

lemma apply_parameters_decoded:
  "apply_parameters h s ps = Inr s' \<Longrightarrow> p \<in> set ps \<Longrightarrow>
   \<exists>d. decodeURIComponent h (param_value p) = Some d"
  by (induction ps arbitrary: s)
     (auto simp: apply_parameter_def split: option.splits sum.splits)

lemma map_of_rev_params:
  "map_of (rev (map (\<lambda>p. (param_name p, param_value p)) ps)) n = Some v \<Longrightarrow>
   \<exists>p\<in>set ps. param_name p = n \<and> param_value p = v"
  by (auto dest!: map_of_SomeD)

lemma named_in_rev_params:
  assumes "p \<in> set ps"
  shows "\<exists>v. map_of (rev (map (\<lambda>p. (param_name p, param_value p)) ps)) (param_name p) = Some v"
proof -
  from assms
  have "param_name p \<in> fst ` set (rev (map (\<lambda>p. (param_name p, param_value p)) ps))"
    by force
  then show ?thesis
    by (metis map_of_eq_None_iff not_Some_eq)
qed

lemma distinct_builtin: "distinct (map fst (builtin_defaults bookPath))"
  by (simp add: builtin_defaults_def)

lemma init_settings_obj:
  "init_settings h srch bookPath (JObj opts) =
     (if srch \<noteq> []
      then apply_parameters h (foldl fill opts (builtin_defaults bookPath)) (parameters srch)
      else Inr (foldl fill opts (builtin_defaults bookPath)))"
  by (simp add: init_settings_def js_or_def defaults_def defaults_obj_def fill_from_def)

section \<open>Properties of the restore\<close>

lemma merge_saved_idem:
  assumes "merge_saved stored r = Inr r1"
  shows "merge_saved stored r1 = Inr r1"
proof -
  from assms obtain sty where sty: "member stored ''styles'' = Inr sty"
    by (auto simp: merge_saved_def split: sum.splits)
  show ?thesis
  proof (cases "truthy sty")
    case False
    with assms sty have r1: "r1 = r\<lparr>settings := defaults_obj (settings r) [stored]\<rparr>"
      by (auto simp: merge_saved_def)
    show ?thesis
      using False sty by (simp add: merge_saved_def r1 defaults_obj_idem)
  next
    case True
    let ?T0 = "js_or (get (settings r) ''styles'') (JObj [])"
    from assms sty True obtain t where
      t: "defaults ?T0 [sty] = Inr t" and
      r1: "r1 = r\<lparr>settings := defaults_obj (assign (settings r) ''styles'' t) [stored]\<rparr>"
      by (auto simp: merge_saved_def merge_styles_def split: sum.splits)
    have "truthy ?T0" by (simp add: js_or_def)
    then have tt: "truthy t" using t by (rule defaults_truthy)
    then have tdef: "t \<noteq> JUndefined" by auto
    have g2: "get (assign (settings r) ''styles'' t) ''styles'' = t"
      by (simp add: get_assign)
    have g1: "get (settings r1) ''styles'' = t"
      using tdef by (simp add: r1 get_defaults_obj_defined g2)
    have or1: "js_or (get (settings r1) ''styles'') (JObj []) = t"
      using tt by (simp add: g1 js_or_def)
    have d1: "defaults t [sty] = Inr t" using t by (rule defaults_idem)
    have a1: "assign (settings r1) ''styles'' t = settings r1"
      using g1 tdef by (intro assign_same) (metis get_Some)
    have "merge_styles sty r1 = Inr r1"
      by (simp add: merge_styles_def or1 d1 a1)
    then show ?thesis
      using True sty by (simp add: merge_saved_def) (simp add: r1 defaults_obj_idem)
  qed
qed

lemma merge_saved_storage:
  assumes "merge_saved stored r = Inr r1"
  shows "storage r1 = storage r"
  using assms
  by (auto simp: merge_saved_def merge_styles_def split: sum.splits if_splits)

lemma merge_saved_bookKey:
  assumes "merge_saved stored r = Inr r1" and "get (settings r) ''bookKey'' \<noteq> JUndefined"
  shows "get (settings r1) ''bookKey'' = get (settings r) ''bookKey''"
  using assms
  by (auto simp: merge_saved_def merge_styles_def get_defaults_obj_defined get_assign
      split: sum.splits if_splits)

lemma merge_saved_total:
  assumes "truthy stored"
    and "\<not> truthy (get (settings r) ''styles'') \<or> (\<exists>sp. get (settings r) ''styles'' = JObj sp)"
  shows "\<exists>r1. merge_saved stored r = Inr r1"
proof -
  from assms(1) obtain sty where sty: "member stored ''styles'' = Inr sty"
    by (cases stored) auto
  from assms(2) obtain tp where "js_or (get (settings r) ''styles'') (JObj []) = JObj tp"
    by (auto simp: js_or_def)
  then have "\<exists>t. defaults (js_or (get (settings r) ''styles'') (JObj [])) [sty] = Inr t"
    by (simp add: defaults_def)
  then show ?thesis
    using sty by (auto simp: merge_saved_def merge_styles_def)
qed

section \<open>Properties of saving and of the keys\<close>

lemma capture_location_cases:
  assumes "book r = None \<or> (currentLocation r \<noteq> JUndefined \<and> currentLocation r \<noteq> JNull)"
  shows "\<exists>r1. capture_location r = Inr r1
       \<and> storage r1 = storage r
       \<and> (\<forall>k. k \<noteq> ''previousLocationCfi'' \<longrightarrow> map_of (settings r1) k = map_of (settings r) k)
       \<and> (\<forall>start. book r \<noteq> None \<and> member (currentLocation r) ''start'' = Inr start \<and> truthy start
             \<longrightarrow> member start ''cfi'' = Inr (get (settings r1) ''previousLocationCfi''))
       \<and> (book r = None \<or> (\<exists>start. member (currentLocation r) ''start'' = Inr start \<and> \<not> truthy start)
             \<longrightarrow> r1 = r)"
proof (cases "book r = None")
  case True
  then show ?thesis by (simp add: capture_location_def)
next
  case False
  with assms obtain start where st: "member (currentLocation r) ''start'' = Inr start"
    by (cases "currentLocation r") auto
  show ?thesis
  proof (cases "truthy start")
    case True
    then obtain c where c: "member start ''cfi'' = Inr c" by (cases start) auto
    with False st True show ?thesis
      by (auto simp: capture_location_def map_of_assign get_assign)
  next
    case nt: False
    with False st show ?thesis by (simp add: capture_location_def)
  qed
qed

lemma parseInt_100: "parseInt ''100'' = Some 100"
  by (simp add: parseInt_def is_space_def is_digit_def digit_of_def digits_value_def)

lemma percent_values:
  "percent (Some 102) = ''102%''" "percent (Some 98) = ''98%''" "percent (Some 100) = ''100%''"
  by (simp_all add: percent_def show_int_def show_nat.simps digit_char_def)

lemma arrows_other_key:
  "key e \<noteq> ''ArrowLeft'' \<Longrightarrow> key e \<noteq> ''ArrowRight'' \<Longrightarrow> arrows e r = Inr r"
  by (simp add: arrows_def)

lemma font_size_after:
  "font_size (r\<lparr>settings := assign (settings r) ''styles'' (JObj (assign sp ''fontSize'' v)),
               calls := cs\<rparr>) = Inr v"
  by (simp add: font_size_def get_assign)

lemma font_keys_frame:
  assumes "font_keys e r = Inr r1"
  shows "book r1 = book r \<and> keylock r1 = keylock r
       \<and> (key e \<noteq> ''='' \<and> key e \<noteq> ''-'' \<and> key e \<noteq> ''0'' \<longrightarrow> calls r1 = calls r)"
  using assms
  by (auto simp: font_keys_def font_switch_def Let_def split: jsval.splits sum.splits if_splits)

section \<open>The claims\<close>

subsection \<open>C1: the precedence of the query parameters\<close>

text \<open>
  C1, as the code has it. When \<open>init\<close> has built the settings from the caller's
  overrides \<open>opts\<close>, the built-in defaults and the query \<open>srch\<close>:
  \<^item> a field \<open>n\<close> that a query parameter names holds the decoded value \<open>v\<close> of the last
    parameter of that name, whatever the defaults and whatever the caller supplied for
    \<open>n\<close> (the assignment in the loop has no condition; the name \<open>__proto__\<close> apart,
    which the assignment does not create);
  \<^item> a field that no parameter names holds the caller's value where that is defined, and
    else the built-in default.
  So the query overrides the defaults and the caller's overrides alike.
\<close>

theorem query_overrides_defaults_and_caller:
  assumes ok: "init_settings h srch bookPath (JObj opts) = Inr s"
  shows "(srch \<noteq> [] \<and> n \<noteq> ''__proto__'' \<and>
          map_of (rev (map (\<lambda>p. (param_name p, param_value p)) (parameters srch))) n = Some v \<longrightarrow>
            (\<exists>d. decodeURIComponent h v = Some d \<and> get s n = JStr d))
       \<and> (srch = [] \<or> n \<notin> param_name ` set (parameters srch) \<longrightarrow>
            map_of s n =
              (if prop_undefined opts n \<and> n \<in> fst ` set (builtin_defaults bookPath)
               then map_of (builtin_defaults bookPath) n else map_of opts n))"
proof (intro conjI impI)
  assume a: "srch \<noteq> [] \<and> n \<noteq> ''__proto__'' \<and>
          map_of (rev (map (\<lambda>p. (param_name p, param_value p)) (parameters srch))) n = Some v"
  with ok have ap:
    "apply_parameters h (foldl fill opts (builtin_defaults bookPath)) (parameters srch) = Inr s"
    by (simp add: init_settings_obj)
  from a obtain p where p: "p \<in> set (parameters srch)" "param_value p = v"
    by (blast dest: map_of_rev_params)
  with ap obtain d where d: "decodeURIComponent h v = Some d"
    by (blast dest: apply_parameters_decoded)
  from apply_parameters_lookup[OF ap, of n] a d have "map_of s n = Some (JStr d)" by simp
  then have "get s n = JStr d" by (simp add: get_def)
  with d show "\<exists>d. decodeURIComponent h v = Some d \<and> get s n = JStr d" by blast
next
  assume a: "srch = [] \<or> n \<notin> param_name ` set (parameters srch)"
  have "map_of s n = map_of (foldl fill opts (builtin_defaults bookPath)) n"
  proof (cases "srch = []")
    case True
    with ok show ?thesis by (simp add: init_settings_obj)
  next
    case False
    with ok have
      "apply_parameters h (foldl fill opts (builtin_defaults bookPath)) (parameters srch) = Inr s"
      by (simp add: init_settings_obj)
    with a False show ?thesis by (auto dest: apply_parameters_unnamed)
  qed
  then show "map_of s n =
              (if prop_undefined opts n \<and> n \<in> fst ` set (builtin_defaults bookPath)
               then map_of (builtin_defaults bookPath) n else map_of opts n)"
    by (simp only: map_of_foldl_fill[OF distinct_builtin])
qed

text \<open>
  The caller asks for French and the page address for German: the settings say German,
  and \<open>history\<close>, which neither names, keeps its default.
\<close>

lemma example_init_settings:
  "init_settings example_host ''?language=de'' (JStr ''moby-dick.epub'')
     (JObj [(''language'', JStr ''fr'')]) =
   Inr [(''language'', JStr ''de''), (''bookPath'', JStr ''moby-dick.epub''),
        (''restore'', JBool False), (''reload'', JBool False), (''bookmarks'', JUndefined),
        (''annotations'', JUndefined), (''contained'', JUndefined), (''bookKey'', JUndefined),
        (''styles'', JUndefined), (''reflowText'', JBool False), (''pagination'', JBool False),
        (''history'', JBool True)]"
  by (simp add: init_settings_obj builtin_defaults_def fill_def prop_undefined_def
      object_prototype_def parameters_def apply_parameter_def param_name_def param_value_def
      assign_def example_host_def)

theorem query_overrides_defaults_and_caller_witness:
  "\<exists>s. init_settings example_host ''?language=de'' (JStr ''moby-dick.epub'')
          (JObj [(''language'', JStr ''fr'')]) = Inr s
       \<and> get s ''language'' = JStr ''de''
       \<and> map_of s ''history'' = Some (JBool True)"
proof -
  let ?s = "[(''language'', JStr ''de''), (''bookPath'', JStr ''moby-dick.epub''),
        (''restore'', JBool False), (''reload'', JBool False), (''bookmarks'', JUndefined),
        (''annotations'', JUndefined), (''contained'', JUndefined), (''bookKey'', JUndefined),
        (''styles'', JUndefined), (''reflowText'', JBool False), (''pagination'', JBool False),
        (''history'', JBool True)]"
  note ok = example_init_settings
  have ps: "parameters ''?language=de'' = [''language=de'']"
    by (simp add: parameters_def)
  have pn: "param_name ''language=de'' = ''language''" by (simp add: param_name_def)
  have pv: "param_value ''language=de'' = ''de''" by (simp add: param_value_def)
  have dec: "decodeURIComponent example_host ''de'' = Some ''de''"
    by (simp add: example_host_def)
  from query_overrides_defaults_and_caller[OF ok, of "''language''" "''de''"]
  have "get ?s ''language'' = JStr ''de''"
    by (simp add: ps pn pv dec)
  moreover
  from query_overrides_defaults_and_caller[OF ok, of "''history''" "''de''"]
  have "map_of ?s ''history'' = Some (JBool True)"
    by (simp add: ps pn prop_undefined_def object_prototype_def builtin_defaults_def)
  ultimately show ?thesis using ok by blast
qed

text \<open>
  C1 as it is stated fails: the value the caller supplied for \<open>language\<close> is replaced by
  the value of the query.
\<close>

theorem caller_override_replaced_by_query:
  "init_settings example_host ''?language=de'' (JStr ''moby-dick.epub'')
     (JObj [(''language'', JStr ''fr'')]) =
   Inr [(''language'', JStr ''de''), (''bookPath'', JStr ''moby-dick.epub''),
        (''restore'', JBool False), (''reload'', JBool False), (''bookmarks'', JUndefined),
        (''annotations'', JUndefined), (''contained'', JUndefined), (''bookKey'', JUndefined),
        (''styles'', JUndefined), (''reflowText'', JBool False), (''pagination'', JBool False),
        (''history'', JBool True)]"
  by (rule example_init_settings)

subsection \<open>C2: saving the settings\<close>

text \<open>
  C2, as the code has it. Where the rendition gives a location (it always does once
  there is a book, unless it answers \<open>undefined\<close> or \<open>null\<close>), \<open>saveSettings\<close>
  returns, and its result is \<open>true\<close> exactly when the page has a \<open>localStorage\<close>.
  With or without the storage it leaves every field of the settings but
  \<open>previousLocationCfi\<close> as it was, and sets \<open>previousLocationCfi\<close> to the start CFI of
  the current location when there is a book and the location has a start; without a book
  or a start the settings stay as they were. Without the storage nothing is stored; with
  it the text of the settings, the new \<open>previousLocationCfi\<close> included, is stored under the
  book key.
\<close>

theorem saveSettings_effect:
  assumes "book r = None \<or> (currentLocation r \<noteq> JUndefined \<and> currentLocation r \<noteq> JNull)"
  shows "\<exists>b r'. saveSettings h r = Inr (b, r')
       \<and> b = (storage r \<noteq> None)
       \<and> (\<forall>k. k \<noteq> ''previousLocationCfi'' \<longrightarrow> map_of (settings r') k = map_of (settings r) k)
       \<and> (storage r = None \<longrightarrow> storage r' = None)
       \<and> (\<forall>st. storage r = Some st \<longrightarrow>
             storage r' = Some (st(storage_key r \<mapsto> JSON_stringify h (JObj (settings r')))))
       \<and> (\<forall>start. book r \<noteq> None \<and> member (currentLocation r) ''start'' = Inr start \<and> truthy start
             \<longrightarrow> member start ''cfi'' = Inr (get (settings r') ''previousLocationCfi''))
       \<and> (book r = None \<or> (\<exists>start. member (currentLocation r) ''start'' = Inr start \<and> \<not> truthy start)
             \<longrightarrow> settings r' = settings r)"
proof -
  from capture_location_cases[OF assms] obtain r1 where
    c: "capture_location r = Inr r1" and
    s: "storage r1 = storage r" and
    m: "\<forall>k. k \<noteq> ''previousLocationCfi'' \<longrightarrow> map_of (settings r1) k = map_of (settings r) k" and
    p: "\<forall>start. book r \<noteq> None \<and> member (currentLocation r) ''start'' = Inr start \<and> truthy start
             \<longrightarrow> member start ''cfi'' = Inr (get (settings r1) ''previousLocationCfi'')" and
    u: "book r = None \<or> (\<exists>start. member (currentLocation r) ''start'' = Inr start \<and> \<not> truthy start)
             \<longrightarrow> r1 = r"
    by blast
  from m have k: "storage_key r1 = storage_key r"
    by (simp add: storage_key_def get_def)
  show ?thesis
  proof (cases "storage r")
    case None
    with c s have "saveSettings h r = Inr (False, r1)" by (simp add: saveSettings_def)
    with None s m p u show ?thesis by auto
  next
    case (Some st)
    with c s have "saveSettings h r =
        Inr (True, r1\<lparr>storage := Some (st(storage_key r \<mapsto> JSON_stringify h (JObj (settings r1))))\<rparr>)"
      by (simp add: saveSettings_def k)
    with Some m p u show ?thesis by auto
  qed
qed

text \<open>
  On the example reader the save succeeds, stores one record under the book key and
  records the position.
\<close>

theorem saveSettings_effect_witness:
  "\<exists>b r'. saveSettings example_host example_reader = Inr (b, r')
       \<and> b
       \<and> storage r' = Some [example_key \<mapsto> ''{}'']
       \<and> get (settings r') ''previousLocationCfi'' = JStr ''epubcfi(/6/4!/4/2)''"
proof -
  have pre: "book example_reader = None \<or>
      (currentLocation example_reader \<noteq> JUndefined \<and> currentLocation example_reader \<noteq> JNull)"
    by (simp add: example_reader_def)
  from saveSettings_effect[OF pre, of example_host] obtain b r' where
    run: "saveSettings example_host example_reader = Inr (b, r')" and
    b: "b = (storage example_reader \<noteq> None)" and
    st: "\<forall>st. storage example_reader = Some st \<longrightarrow>
           storage r' = Some (st(storage_key example_reader \<mapsto>
             JSON_stringify example_host (JObj (settings r'))))" and
    cfi: "\<forall>start. book example_reader \<noteq> None \<and>
            member (currentLocation example_reader) ''start'' = Inr start \<and> truthy start
             \<longrightarrow> member start ''cfi'' = Inr (get (settings r') ''previousLocationCfi'')"
    by blast
  from b have "b" by (simp add: example_reader_def)
  moreover from st have "storage r' = Some [example_key \<mapsto> ''{}'']"
    by (simp add: example_reader_def storage_key_def get_def example_host_def)
  moreover from cfi have "get (settings r') ''previousLocationCfi'' = JStr ''epubcfi(/6/4!/4/2)''"
    by (simp add: example_reader_def get_def)
  ultimately show ?thesis using run by blast
qed

text \<open>
  C2 as it is stated fails: on a page without \<open>localStorage\<close> the call answers
  \<open>false\<close>, and yet the settings, which had no \<open>previousLocationCfi\<close>, have one
  afterwards.
\<close>

theorem saveSettings_without_storage_writes_location:
  "saveSettings example_host (example_reader\<lparr>storage := None\<rparr>) =
     Inr (False,
          example_reader
            \<lparr>settings := settings example_reader @
                 [(''previousLocationCfi'', JStr ''epubcfi(/6/4!/4/2)'')],
             storage := None\<rparr>)
   \<and> get (settings (example_reader\<lparr>storage := None\<rparr>)) ''previousLocationCfi'' = JUndefined"
  by (simp add: saveSettings_def capture_location_def example_reader_def assign_def get_def)

subsection \<open>C3: a record that is no JSON text\<close>

text \<open>
  C3, on the code. When the text stored under the book key is no JSON text, the
  \<open>catch\<close> block of \<open>applySavedSettings\<close> calls \<open>console.exception\<close>. On a host
  whose console has that method the call answers \<open>false\<close> and leaves the settings as
  they were, as it does with no record under the book key. On a host whose console has
  it not, the call in the \<open>catch\<close> block throws, and \<open>applySavedSettings\<close> ends in
  a \<open>TypeError\<close>, which the claim excludes; with no record it still answers
  \<open>false\<close>.
\<close>

theorem corrupt_record_throws_without_console_exception:
  assumes "storage r = Some st" and "st (storage_key r) = Some txt" and "JSON_parse h txt = None"
  shows "applySavedSettings h r =
           (if console_exception h
            then Inr (False, r\<lparr>calls := calls r @ [ConsoleException]\<rparr>)
            else Inl TypeError)
       \<and> applySavedSettings h (r\<lparr>storage := Some (st(storage_key r := None))\<rparr>)
           = Inr (False, r\<lparr>storage := Some (st(storage_key r := None))\<rparr>)"
  using assms by (simp add: applySavedSettings_def parse_item_def storage_key_def)

text \<open>
  The example reader with the record \<open>{oops\<close>, on the example host without
  \<open>console.exception\<close>: a \<open>TypeError\<close>; without the record: \<open>false\<close>.
\<close>

theorem corrupt_record_throws_without_console_exception_witness:
  "JSON_parse (example_host\<lparr>console_exception := False\<rparr>) ''{oops'' = None
   \<and> applySavedSettings (example_host\<lparr>console_exception := False\<rparr>)
         (example_reader\<lparr>storage := Some [example_key \<mapsto> ''{oops'']\<rparr>)
       = Inl TypeError
   \<and> applySavedSettings (example_host\<lparr>console_exception := False\<rparr>)
         (example_reader\<lparr>storage := Some Map.empty\<rparr>)
       = Inr (False, example_reader\<lparr>storage := Some Map.empty\<rparr>)"
proof -
  let ?h = "example_host\<lparr>console_exception := False\<rparr>"
  let ?r = "example_reader\<lparr>storage := Some [example_key \<mapsto> ''{oops'']\<rparr>"
  have k: "storage_key ?r = example_key"
    by (simp add: storage_key_def example_reader_def get_def)
  have s: "storage ?r = Some [example_key \<mapsto> ''{oops'']" by simp
  have t: "[example_key \<mapsto> ''{oops''] (storage_key ?r) = Some ''{oops''" by (simp add: k)
  have p: "JSON_parse ?h ''{oops'' = None"
    by (simp add: example_host_def example_text_def)
  have e: "[example_key \<mapsto> ''{oops''](example_key := None) = Map.empty" by simp
  note run = corrupt_record_throws_without_console_exception[OF s t p, unfolded k e]
  from run p show ?thesis
    by simp
qed

subsection \<open>C4: defaults\<close>

text \<open>
  C4. For a target object and a source object, \<open>defaults\<close> returns an object in which
  every property the target reads as defined is as in the target, every property the
  target reads as \<open>undefined\<close> and the source has is as in the source, and nothing else
  has changed; \<open>defaults({a:1},{a:2})\<close> is \<open>{a:1}\<close> and \<open>defaults({},{a:2})\<close> is
  \<open>{a:2}\<close>.
\<close>

theorem defaults_fills_undefined_only:
  assumes "distinct (map fst src)"
  shows "(\<exists>res. defaults (JObj tgt) [JObj src] = Inr (JObj res) \<and>
            (\<forall>k. map_of res k =
                  (if prop_undefined tgt k \<and> k \<in> fst ` set src then map_of src k else map_of tgt k)))
       \<and> defaults (JObj [(''a'', JNum 1)]) [JObj [(''a'', JNum 2)]] = Inr (JObj [(''a'', JNum 1)])
       \<and> defaults (JObj []) [JObj [(''a'', JNum 2)]] = Inr (JObj [(''a'', JNum 2)])"
proof (intro conjI)
  show "\<exists>res. defaults (JObj tgt) [JObj src] = Inr (JObj res) \<and>
            (\<forall>k. map_of res k =
                  (if prop_undefined tgt k \<and> k \<in> fst ` set src then map_of src k else map_of tgt k))"
    using assms by (simp add: defaults_def defaults_obj_def fill_from_def map_of_foldl_fill)
  show "defaults (JObj [(''a'', JNum 1)]) [JObj [(''a'', JNum 2)]] = Inr (JObj [(''a'', JNum 1)])"
    by (simp add: defaults_def defaults_obj_def fill_from_def fill_def prop_undefined_def)
  show "defaults (JObj []) [JObj [(''a'', JNum 2)]] = Inr (JObj [(''a'', JNum 2)])"
    by (simp add: defaults_def defaults_obj_def fill_from_def fill_def prop_undefined_def
        object_prototype_def)
qed

theorem defaults_fills_undefined_only_witness:
  "\<exists>res. defaults (JObj [(''a'', JNum 1), (''b'', JUndefined)])
            [JObj [(''a'', JNum 2), (''b'', JNum 3), (''c'', JNull)]] = Inr (JObj res)
         \<and> map_of res ''a'' = Some (JNum 1)
         \<and> map_of res ''b'' = Some (JNum 3)
         \<and> map_of res ''c'' = Some JNull"
proof -
  have d: "distinct (map fst [(''a'', JNum 2), (''b'', JNum 3), (''c'', JNull)])" by simp
  from defaults_fills_undefined_only[OF d, of "[(''a'', JNum 1), (''b'', JUndefined)]"]
  obtain res where
    r: "defaults (JObj [(''a'', JNum 1), (''b'', JUndefined)])
            [JObj [(''a'', JNum 2), (''b'', JNum 3), (''c'', JNull)]] = Inr (JObj res)" and
    m: "\<And>k. map_of res k =
          (if prop_undefined [(''a'', JNum 1), (''b'', JUndefined)] k \<and>
              k \<in> fst ` set [(''a'', JNum 2), (''b'', JNum 3), (''c'', JNull)]
           then map_of [(''a'', JNum 2), (''b'', JNum 3), (''c'', JNull)] k
           else map_of [(''a'', JNum 1), (''b'', JUndefined)] k)"
    by blast
  have "map_of res ''a'' = Some (JNum 1)"
    by (simp add: m prop_undefined_def)
  moreover have "map_of res ''b'' = Some (JNum 3)"
    by (simp add: m prop_undefined_def)
  moreover have "map_of res ''c'' = Some JNull"
    by (simp add: m prop_undefined_def object_prototype_def)
  ultimately show ?thesis using r by blast
qed

subsection \<open>C5: the book key\<close>

text \<open>
  C5. For a book path that is a string, \<open>setBookKey\<close> answers the prefix
  \<open>epubjs-reader:\<close> followed by the hash of the path when the settings have no book key,
  and the key of the settings otherwise; the settings then hold the key it answered. With
  a key in the settings it changes nothing, whatever the identifier; so a second call,
  with any identifier, answers the same key and changes nothing.
\<close>

theorem setBookKey_derives_once:
  "fst (setBookKey h (JStr bookPath) r) =
     (if get (settings r) ''bookKey'' = JUndefined
      then JStr (''epubjs-reader:'' @ md5 h (JStr bookPath))
      else get (settings r) ''bookKey'')
   \<and> get (settings (snd (setBookKey h (JStr bookPath) r))) ''bookKey'' = fst (setBookKey h (JStr bookPath) r)
   \<and> (get (settings r) ''bookKey'' \<noteq> JUndefined \<longrightarrow>
        setBookKey h identifier r = (get (settings r) ''bookKey'', r))
   \<and> setBookKey h identifier (snd (setBookKey h (JStr bookPath) r)) =
       (fst (setBookKey h (JStr bookPath) r), snd (setBookKey h (JStr bookPath) r))"
  by (simp add: setBookKey_def Let_def get_assign)

theorem setBookKey_derives_once_witness:
  "fst (setBookKey example_host (JStr ''moby-dick.epub'') (example_reader\<lparr>settings := []\<rparr>))
     = JStr ''epubjs-reader:eb0dcf9369e00a342ccba2112c75d90e''
   \<and> setBookKey example_host (JStr ''other.epub'') example_reader = (JStr example_key, example_reader)"
proof -
  have g: "get (settings example_reader) ''bookKey'' = JStr example_key"
    by (simp add: example_reader_def get_def)
  from setBookKey_derives_once[of example_host "''moby-dick.epub''" "example_reader\<lparr>settings := []\<rparr>"]
  have "fst (setBookKey example_host (JStr ''moby-dick.epub'') (example_reader\<lparr>settings := []\<rparr>))
     = JStr ''epubjs-reader:eb0dcf9369e00a342ccba2112c75d90e''"
    by (simp add: get_def example_host_def)
  moreover
  from setBookKey_derives_once[of example_host "''moby-dick.epub''" example_reader "JStr ''other.epub''"]
  have "setBookKey example_host (JStr ''other.epub'') example_reader = (JStr example_key, example_reader)"
    by (simp add: g)
  ultimately show ?thesis by blast
qed

subsection \<open>C6: the history\<close>

text \<open>
  C6, as the code has it. \<open>setLocation\<close> pushes one entry, the fragment \<open>#\<close>
  followed by the position, exactly when the \<open>history\<close> setting is on and the fragment
  differs from the current one, and pushes nothing otherwise. When the location reads back
  the fragment it was given, a second call in a row with the same position pushes nothing.
  The test is against the current fragment alone: with the setting on, a position set
  after another one is pushed whenever the fragment then current differs from its own, so
  a position that is visited again is pushed again.
\<close>

theorem setLocation_pushes_on_change_only:
  "pushed (setLocation h cfi r) =
     (if truthy (get (settings r) ''history'') \<and> hash r \<noteq> ''#'' @ to_string cfi
      then pushed r @ [''#'' @ to_string cfi] else pushed r)
   \<and> (location_hash h (''#'' @ to_string cfi) = ''#'' @ to_string cfi \<longrightarrow>
        pushed (setLocation h cfi (setLocation h cfi r)) = pushed (setLocation h cfi r))
   \<and> (truthy (get (settings r) ''history'') \<and>
        hash (setLocation h other r) \<noteq> ''#'' @ to_string cfi \<longrightarrow>
        pushed (setLocation h cfi (setLocation h other r)) =
          pushed (setLocation h other r) @ [''#'' @ to_string cfi])"
  by (simp add: setLocation_def Let_def)

text \<open>
  On the example reader: the first call pushes, the second in a row does not, and a call
  after another position pushes.
\<close>

theorem setLocation_pushes_on_change_only_witness:
  "pushed (setLocation example_host (JStr ''epubcfi(/6/4!/4/2)'') example_reader)
     = [''#epubcfi(/6/4!/4/2)'']
   \<and> pushed (setLocation example_host (JStr ''epubcfi(/6/4!/4/2)'')
              (setLocation example_host (JStr ''epubcfi(/6/4!/4/2)'') example_reader))
     = [''#epubcfi(/6/4!/4/2)'']
   \<and> pushed (setLocation example_host (JStr ''epubcfi(/6/6!/4/2)'')
              (setLocation example_host (JStr ''epubcfi(/6/4!/4/2)'') example_reader))
     = [''#epubcfi(/6/4!/4/2)'', ''#epubcfi(/6/6!/4/2)'']"
proof -
  have e: "location_hash example_host (''#'' @ to_string (JStr ''epubcfi(/6/4!/4/2)''))
             = ''#'' @ to_string (JStr ''epubcfi(/6/4!/4/2)'')"
    by (simp add: example_host_def)
  have g: "truthy (get (settings example_reader) ''history'')"
    by (simp add: example_reader_def get_def)
  have hs: "hash example_reader = []" "pushed example_reader = []"
    by (simp_all add: example_reader_def)
  have h1: "hash (setLocation example_host (JStr ''epubcfi(/6/4!/4/2)'') example_reader)
              = ''#epubcfi(/6/4!/4/2)''"
    using g hs by (simp add: setLocation_def Let_def example_host_def)
  from setLocation_pushes_on_change_only
         [of example_host "JStr ''epubcfi(/6/4!/4/2)''" example_reader "JStr ''epubcfi(/6/4!/4/2)''"]
  have one: "pushed (setLocation example_host (JStr ''epubcfi(/6/4!/4/2)'') example_reader)
               = [''#epubcfi(/6/4!/4/2)'']"
    and two: "pushed (setLocation example_host (JStr ''epubcfi(/6/4!/4/2)'')
                 (setLocation example_host (JStr ''epubcfi(/6/4!/4/2)'') example_reader))
               = [''#epubcfi(/6/4!/4/2)'']"
    using e g hs by simp_all
  from setLocation_pushes_on_change_only
         [of example_host "JStr ''epubcfi(/6/6!/4/2)''" example_reader "JStr ''epubcfi(/6/4!/4/2)''"]
  have three: "pushed (setLocation example_host (JStr ''epubcfi(/6/6!/4/2)'')
                 (setLocation example_host (JStr ''epubcfi(/6/4!/4/2)'') example_reader))
               = [''#epubcfi(/6/4!/4/2)'', ''#epubcfi(/6/6!/4/2)'']"
    using g h1 one by simp
  from one two three show ?thesis by blast
qed

text \<open>
  C6 as it is stated fails. There is no bound of one entry for a position: the first
  position, set again after a second one, is pushed a second time. And a second call in a
  row is not always without effect: a position with a space is read back from the location
  with \<open>%20\<close> in its place, differs from the fragment of the position, and is pushed
  again.
\<close>

theorem setLocation_pushes_position_twice:
  "pushed (setLocation example_host (JStr ''epubcfi(/6/4!/4/2)'')
            (setLocation example_host (JStr ''epubcfi(/6/6!/4/2)'')
              (setLocation example_host (JStr ''epubcfi(/6/4!/4/2)'') example_reader)))
     = [''#epubcfi(/6/4!/4/2)'', ''#epubcfi(/6/6!/4/2)'', ''#epubcfi(/6/4!/4/2)'']
   \<and> pushed (setLocation example_host (JStr ''epubcfi(/6/4[ch 1]!/4/2)'')
              (setLocation example_host (JStr ''epubcfi(/6/4[ch 1]!/4/2)'') example_reader))
     = [''#epubcfi(/6/4[ch 1]!/4/2)'', ''#epubcfi(/6/4[ch 1]!/4/2)'']"
  by (simp add: setLocation_def Let_def example_host_def example_reader_def get_def)

subsection \<open>C7: the font size keys\<close>

text \<open>
  C7. With a modifier held and \<open>styles\<close> an object: at a stored font size of
  \<open>100%\<close> the key \<open>=\<close> stores \<open>102%\<close> and the key \<open>-\<close> stores \<open>98%\<close>, each
  telling the rendition so; and the key \<open>0\<close> stores \<open>100%\<close> whatever string was stored
  before, or none.
\<close>

theorem font_size_keys:
  assumes md: "ctrlKey e \<or> metaKey e" and sty: "get (settings r) ''styles'' = JObj sp"
  shows "(key e = ''='' \<and> get sp ''fontSize'' = JStr ''100%'' \<longrightarrow>
            (\<exists>r'. arrowKeys e r = Inr r' \<and> font_size r' = Inr (JStr ''102%'')
                  \<and> calls r' = calls r @ [PreventDefault, ThemesFontSize ''102%'']))
       \<and> (key e = ''-'' \<and> get sp ''fontSize'' = JStr ''100%'' \<longrightarrow>
            (\<exists>r'. arrowKeys e r = Inr r' \<and> font_size r' = Inr (JStr ''98%'')
                  \<and> calls r' = calls r @ [PreventDefault, ThemesFontSize ''98%'']))
       \<and> (key e = ''0'' \<and> (get sp ''fontSize'' = JUndefined \<or> (\<exists>s. get sp ''fontSize'' = JStr s)) \<longrightarrow>
            (\<exists>r'. arrowKeys e r = Inr r' \<and> font_size r' = Inr (JStr ''100%'')
                  \<and> calls r' = calls r @ [PreventDefault, ThemesFontSize ''100%'']))"
proof (intro conjI impI)
  assume a: "key e = ''='' \<and> get sp ''fontSize'' = JStr ''100%''"
  then have "font_keys e r =
      Inr (r\<lparr>settings := assign (settings r) ''styles'' (JObj (assign sp ''fontSize'' (JStr ''102%''))),
            calls := calls r @ [PreventDefault, ThemesFontSize ''102%'']\<rparr>)"
    using sty
    by (simp add: font_keys_def parse_font_size_def parseInt_100 font_switch_def add_interval_def
        percent_values)
  with a md sty show "\<exists>r'. arrowKeys e r = Inr r' \<and> font_size r' = Inr (JStr ''102%'')
                  \<and> calls r' = calls r @ [PreventDefault, ThemesFontSize ''102%'']"
    by (simp add: arrowKeys_def arrows_other_key font_size_after)
next
  assume a: "key e = ''-'' \<and> get sp ''fontSize'' = JStr ''100%''"
  then have "font_keys e r =
      Inr (r\<lparr>settings := assign (settings r) ''styles'' (JObj (assign sp ''fontSize'' (JStr ''98%''))),
            calls := calls r @ [PreventDefault, ThemesFontSize ''98%'']\<rparr>)"
    using sty
    by (simp add: font_keys_def parse_font_size_def parseInt_100 font_switch_def add_interval_def
        percent_values)
  with a md sty show "\<exists>r'. arrowKeys e r = Inr r' \<and> font_size r' = Inr (JStr ''98%'')
                  \<and> calls r' = calls r @ [PreventDefault, ThemesFontSize ''98%'']"
    by (simp add: arrowKeys_def arrows_other_key font_size_after)
next
  assume a: "key e = ''0'' \<and> (get sp ''fontSize'' = JUndefined \<or> (\<exists>s. get sp ''fontSize'' = JStr s))"
  define sp1 where "sp1 = (if get sp ''fontSize'' = JUndefined
                      then assign sp ''fontSize'' (JStr ''100%'') else sp)"
  from a obtain s where s: "get sp1 ''fontSize'' = JStr s"
    by (auto simp: sp1_def get_assign)
  have "font_keys e r =
      Inr (r\<lparr>settings := assign (settings r) ''styles'' (JObj (assign sp1 ''fontSize'' (JStr ''100%''))),
            calls := calls r @ [PreventDefault, ThemesFontSize ''100%'']\<rparr>)"
    using sty a s
    by (simp add: font_keys_def sp1_def[symmetric] parse_font_size_def font_switch_def percent_values)
  with a md sty show "\<exists>r'. arrowKeys e r = Inr r' \<and> font_size r' = Inr (JStr ''100%'')
                  \<and> calls r' = calls r @ [PreventDefault, ThemesFontSize ''100%'']"
    by (simp add: arrowKeys_def arrows_other_key font_size_after)
qed

theorem font_size_keys_witness:
  "(\<exists>r'. arrowKeys \<lparr>ctrlKey = True, metaKey = False, key = ''=''\<rparr> example_reader = Inr r'
         \<and> font_size r' = Inr (JStr ''102%''))
   \<and> (\<exists>r'. arrowKeys \<lparr>ctrlKey = False, metaKey = True, key = ''-''\<rparr> example_reader = Inr r'
         \<and> font_size r' = Inr (JStr ''98%''))
   \<and> (\<exists>r'. arrowKeys \<lparr>ctrlKey = True, metaKey = False, key = ''0''\<rparr>
              (example_reader\<lparr>settings := [(''styles'', JObj [(''fontSize'', JStr ''250%'')])]\<rparr>) = Inr r'
         \<and> font_size r' = Inr (JStr ''100%''))"
proof -
  have s1: "get (settings example_reader) ''styles'' = JObj [(''fontSize'', JStr ''100%'')]"
    by (simp add: example_reader_def get_def)
  have s2: "get (settings (example_reader\<lparr>settings := [(''styles'', JObj [(''fontSize'', JStr ''250%'')])]\<rparr>))
              ''styles'' = JObj [(''fontSize'', JStr ''250%'')]"
    by (simp add: get_def)
  from font_size_keys[of "\<lparr>ctrlKey = True, metaKey = False, key = ''=''\<rparr>", OF _ s1]
  have "\<exists>r'. arrowKeys \<lparr>ctrlKey = True, metaKey = False, key = ''=''\<rparr> example_reader = Inr r'
         \<and> font_size r' = Inr (JStr ''102%'')"
    by (simp add: get_def) blast
  moreover
  from font_size_keys[of "\<lparr>ctrlKey = False, metaKey = True, key = ''-''\<rparr>", OF _ s1]
  have "\<exists>r'. arrowKeys \<lparr>ctrlKey = False, metaKey = True, key = ''-''\<rparr> example_reader = Inr r'
         \<and> font_size r' = Inr (JStr ''98%'')"
    by (simp add: get_def) blast
  moreover
  from font_size_keys[of "\<lparr>ctrlKey = True, metaKey = False, key = ''0''\<rparr>", OF _ s2]
  have "\<exists>r'. arrowKeys \<lparr>ctrlKey = True, metaKey = False, key = ''0''\<rparr>
              (example_reader\<lparr>settings := [(''styles'', JObj [(''fontSize'', JStr ''250%'')])]\<rparr>) = Inr r'
         \<and> font_size r' = Inr (JStr ''100%'')"
    by (simp add: get_def) blast
  ultimately show ?thesis by blast
qed

subsection \<open>C8: the arrow keys\<close>

text \<open>
  C8. Let the book have metadata with the declared direction \<open>d\<close>, and let the block of
  the font size, which runs first when a modifier is held, run to its end. Then
  \<open>ArrowLeft\<close> calls \<open>next\<close> on the rendition when \<open>d\<close> is \<open>rtl\<close> and \<open>prev\<close>
  for any other \<open>d\<close>, and \<open>ArrowRight\<close> calls \<open>prev\<close> when \<open>d\<close> is \<open>rtl\<close> and
  \<open>next\<close> for any other \<open>d\<close>; the lock plays no part.
\<close>

theorem arrow_keys_follow_direction:
  assumes d: "direction r = Inr d"
    and f: "ctrlKey e \<or> metaKey e \<longrightarrow>
              get (settings r) ''styles'' \<noteq> JUndefined \<and> (\<exists>r1. font_keys e r = Inr r1)"
  shows "(key e = ''ArrowLeft'' \<longrightarrow>
            (\<exists>r'. arrowKeys e r = Inr r' \<and>
                  calls r' = calls r @
                    [if d = JStr ''rtl'' then RenditionNext else RenditionPrev,
                     AddClassPrev, SetTimeout ReleasePrev 100, PreventDefault]))
       \<and> (key e = ''ArrowRight'' \<longrightarrow>
            (\<exists>r'. arrowKeys e r = Inr r' \<and>
                  calls r' = calls r @
                    [if d = JStr ''rtl'' then RenditionPrev else RenditionNext,
                     AddClassNext, SetTimeout ReleaseNext 100, PreventDefault]))"
proof (cases "ctrlKey e \<or> metaKey e")
  case False
  with d show ?thesis by (simp add: arrowKeys_def arrows_def)
next
  case True
  with f obtain r1 where r1: "font_keys e r = Inr r1" and u: "get (settings r) ''styles'' \<noteq> JUndefined"
    by blast
  from font_keys_frame[OF r1] have b: "book r1 = book r"
    and c: "key e \<noteq> ''='' \<and> key e \<noteq> ''-'' \<and> key e \<noteq> ''0'' \<longrightarrow> calls r1 = calls r"
    by simp_all
  from b d have d1: "direction r1 = Inr d" by (simp add: direction_def)
  from True u r1 have ak: "arrowKeys e r = arrows e r1" by (simp add: arrowKeys_def)
  show ?thesis
    using d1 c by (auto simp: ak arrows_def)
qed

theorem arrow_keys_follow_direction_witness:
  "(\<exists>r'. arrowKeys \<lparr>ctrlKey = False, metaKey = False, key = ''ArrowLeft''\<rparr> example_reader = Inr r'
         \<and> calls r' = [RenditionNext, AddClassPrev, SetTimeout ReleasePrev 100, PreventDefault])
   \<and> (\<exists>r'. arrowKeys \<lparr>ctrlKey = True, metaKey = False, key = ''ArrowRight''\<rparr>
              (example_reader\<lparr>book := Some (JObj [(''metadata'', JObj [(''direction'', JStr ''ltr'')])])\<rparr>)
              = Inr r'
         \<and> calls r' = [RenditionNext, AddClassNext, SetTimeout ReleaseNext 100, PreventDefault])"
proof -
  let ?ltr = "example_reader\<lparr>book := Some (JObj [(''metadata'', JObj [(''direction'', JStr ''ltr'')])])\<rparr>"
  let ?e = "\<lparr>ctrlKey = True, metaKey = False, key = ''ArrowRight''\<rparr>"
  have d1: "direction example_reader = Inr (JStr ''rtl'')"
    by (simp add: direction_def example_reader_def get_def)
  have d2: "direction ?ltr = Inr (JStr ''ltr'')"
    by (simp add: direction_def get_def)
  have c: "calls example_reader = []" by (simp add: example_reader_def)
  have f2: "ctrlKey ?e \<or> metaKey ?e \<longrightarrow>
              get (settings ?ltr) ''styles'' \<noteq> JUndefined \<and> (\<exists>r1. font_keys ?e ?ltr = Inr r1)"
    by (simp add: example_reader_def get_def font_keys_def parse_font_size_def parseInt_100
        font_switch_def add_interval_def Let_def)
  from arrow_keys_follow_direction[OF d1, of "\<lparr>ctrlKey = False, metaKey = False, key = ''ArrowLeft''\<rparr>"]
  have "\<exists>r'. arrowKeys \<lparr>ctrlKey = False, metaKey = False, key = ''ArrowLeft''\<rparr> example_reader = Inr r'
         \<and> calls r' = [RenditionNext, AddClassPrev, SetTimeout ReleasePrev 100, PreventDefault]"
    by (simp add: c)
  moreover
  from arrow_keys_follow_direction[OF d2 f2]
  have "\<exists>r'. arrowKeys ?e ?ltr = Inr r'
         \<and> calls r' = [RenditionNext, AddClassNext, SetTimeout ReleaseNext 100, PreventDefault]"
    by (simp add: c)
  ultimately show ?thesis by blast
qed

subsection \<open>C9: merging a saved record twice\<close>

text \<open>
  C9. When the merge of a saved record into the settings (the styles, then the rest) has
  run, a second merge of the same record changes nothing: it returns the reader it was
  given. So it is for \<open>applySavedSettings\<close> on a reader whose book key is set (the key
  selects the record, and \<open>init\<close> sets it before it restores): a second call gives the
  same answer and the same settings. The merge does run to its end for every record that
  passes the test of \<open>stored\<close> when the styles of the settings are an object or are
  falsy.
\<close>

theorem saved_merge_idempotent:
  "(merge_saved stored r = Inr ra \<longrightarrow> merge_saved stored ra = Inr ra)
   \<and> (applySavedSettings h r = Inr (b, rb) \<and> get (settings r) ''bookKey'' \<noteq> JUndefined \<longrightarrow>
        (\<exists>rc. applySavedSettings h rb = Inr (b, rc) \<and> settings rc = settings rb))
   \<and> (truthy stored \<and>
        (\<not> truthy (get (settings r) ''styles'') \<or> (\<exists>sp. get (settings r) ''styles'' = JObj sp)) \<longrightarrow>
        (\<exists>rd. merge_saved stored r = Inr rd))"
proof (intro conjI impI)
  assume "merge_saved stored r = Inr ra"
  then show "merge_saved stored ra = Inr ra" by (rule merge_saved_idem)
next
  assume a: "applySavedSettings h r = Inr (b, rb) \<and> get (settings r) ''bookKey'' \<noteq> JUndefined"
  show "\<exists>rc. applySavedSettings h rb = Inr (b, rc) \<and> settings rc = settings rb"
  proof (cases "storage r")
    case None
    with a have "rb = r" "b = False" by (auto simp: applySavedSettings_def)
    with None show ?thesis by (simp add: applySavedSettings_def)
  next
    case (Some st)
    note st = Some
    show ?thesis
    proof (cases "parse_item h (st (storage_key r))")
      case None
      with a st have c: "console_exception h"
        and rb: "rb = r\<lparr>calls := calls r @ [ConsoleException]\<rparr>" and b: "b = False"
        by (auto simp: applySavedSettings_def split: if_splits)
      have "storage_key rb = storage_key r" by (simp add: rb storage_key_def)
      with None st c show ?thesis by (simp add: applySavedSettings_def rb b)
    next
      case (Some v)
      note v = Some
      show ?thesis
      proof (cases "truthy v")
        case False
        with a st v have "rb = r" "b = False" by (auto simp: applySavedSettings_def)
        with False st v show ?thesis by (simp add: applySavedSettings_def)
      next
        case True
        with a st v have m: "merge_saved v r = Inr rb" and b: "b = True"
          by (auto simp: applySavedSettings_def split: sum.splits)
        from m a have "get (settings rb) ''bookKey'' = get (settings r) ''bookKey''"
          by (intro merge_saved_bookKey) auto
        then have k: "storage_key rb = storage_key r" by (simp add: storage_key_def)
        from m have s: "storage rb = storage r" by (rule merge_saved_storage)
        from m have "merge_saved v rb = Inr rb" by (rule merge_saved_idem)
        with True st v k s show ?thesis by (simp add: applySavedSettings_def b)
      qed
    qed
  qed
next
  assume "truthy stored \<and>
        (\<not> truthy (get (settings r) ''styles'') \<or> (\<exists>sp. get (settings r) ''styles'' = JObj sp))"
  then show "\<exists>rd. merge_saved stored r = Inr rd" by (intro merge_saved_total) auto
qed

text \<open>
  A reader with a book key and no styles, and the example record under that key: the
  first restore brings the styles and the language, the second brings nothing new.
\<close>

theorem saved_merge_idempotent_witness:
  "applySavedSettings example_host
     (example_reader\<lparr>settings := [(''bookKey'', JStr example_key)],
                     storage := Some [example_key \<mapsto> example_text]\<rparr>)
   = Inr (True,
          example_reader\<lparr>settings := [(''bookKey'', JStr example_key),
                                       (''styles'', JObj [(''fontSize'', JStr ''120%'')]),
                                       (''language'', JStr ''fr'')],
                         storage := Some [example_key \<mapsto> example_text]\<rparr>)
   \<and> (\<exists>r3. applySavedSettings example_host
              (example_reader\<lparr>settings := [(''bookKey'', JStr example_key),
                                           (''styles'', JObj [(''fontSize'', JStr ''120%'')]),
                                           (''language'', JStr ''fr'')],
                             storage := Some [example_key \<mapsto> example_text]\<rparr>) = Inr (True, r3)
          \<and> settings r3 = [(''bookKey'', JStr example_key),
                            (''styles'', JObj [(''fontSize'', JStr ''120%'')]),
                            (''language'', JStr ''fr'')])"
proof -
  let ?r = "example_reader\<lparr>settings := [(''bookKey'', JStr example_key)],
                     storage := Some [example_key \<mapsto> example_text]\<rparr>"
  let ?r2 = "example_reader\<lparr>settings := [(''bookKey'', JStr example_key),
                                       (''styles'', JObj [(''fontSize'', JStr ''120%'')]),
                                       (''language'', JStr ''fr'')],
                         storage := Some [example_key \<mapsto> example_text]\<rparr>"
  have p: "parse_item example_host (Some example_text) = Some example_record"
    by (simp add: parse_item_def example_host_def example_text_def)
  have run: "applySavedSettings example_host ?r = Inr (True, ?r2)"
    by (simp add: applySavedSettings_def storage_key_def get_def p)
       (simp add: example_record_def merge_saved_def merge_styles_def get_def js_or_def
          defaults_def defaults_obj_def fill_from_def fill_def prop_undefined_def
          object_prototype_def assign_def example_key_def)
  have k: "get (settings ?r) ''bookKey'' \<noteq> JUndefined" by (simp add: get_def)
  from saved_merge_idempotent[where h = example_host and r = ?r and b = True and rb = ?r2] run k
  have "\<exists>r3. applySavedSettings example_host ?r2 = Inr (True, r3) \<and> settings r3 = settings ?r2"
    by blast
  then show ?thesis using run by simp
qed

subsection \<open>C10: the values of the query parameters\<close>

text \<open>
  C10. After \<open>init\<close> has read a query that is not empty, the field named by a
  parameter (the name \<open>__proto__\<close> apart) holds a string: the decoded value of a parameter
  of that name. The value of a parameter is the empty text when it has no \<open>=\<close> and the
  text after the \<open>=\<close> when it has one. So the query \<open>?restore=false\<close> stores the
  string \<open>false\<close>, which is not empty, and the test of \<open>restore\<close> succeeds, also where
  \<open>init\<close> makes it, after the book key is set.
\<close>

theorem query_values_are_strings:
  assumes ok: "init_settings h srch bookPath (JObj opts) = Inr s" and ne: "srch \<noteq> []"
  shows "(p \<in> set (parameters srch) \<and> param_name p \<noteq> ''__proto__'' \<longrightarrow>
            (\<exists>q d. q \<in> set (parameters srch) \<and> param_name q = param_name p \<and>
                   decodeURIComponent h (param_value q) = Some d \<and>
                   get s (param_name p) = JStr d))
       \<and> (CHR ''='' \<notin> set p \<longrightarrow> param_value p = [])
       \<and> (CHR ''='' \<notin> set x \<and> CHR ''='' \<notin> set y \<longrightarrow> param_value (x @ ''='' @ y) = y)
       \<and> (srch = ''?restore=false'' \<and> decodeURIComponent h ''false'' = Some ''false'' \<longrightarrow>
            get s ''restore'' = JStr ''false'' \<and> restore_enabled s \<and>
            restore_enabled (settings (snd (setBookKey h (get s ''bookPath'') (r\<lparr>settings := s\<rparr>)))))"
proof (intro conjI impI)
  from ok ne have ap:
    "apply_parameters h (foldl fill opts (builtin_defaults bookPath)) (parameters srch) = Inr s"
    by (simp add: init_settings_obj)
  {
    assume a: "p \<in> set (parameters srch) \<and> param_name p \<noteq> ''__proto__''"
    then obtain v where v:
      "map_of (rev (map (\<lambda>p. (param_name p, param_value p)) (parameters srch))) (param_name p) = Some v"
      by (blast dest: named_in_rev_params)
    then obtain q where q: "q \<in> set (parameters srch)" "param_name q = param_name p" "param_value q = v"
      by (blast dest: map_of_rev_params)
    with ap obtain d where d: "decodeURIComponent h v = Some d"
      by (blast dest: apply_parameters_decoded)
    from apply_parameters_lookup[OF ap, of "param_name p"] a v d
    have "map_of s (param_name p) = Some (JStr d)" by simp
    then have "get s (param_name p) = JStr d" by (simp add: get_def)
    with q d show "\<exists>q d. q \<in> set (parameters srch) \<and> param_name q = param_name p \<and>
                   decodeURIComponent h (param_value q) = Some d \<and>
                   get s (param_name p) = JStr d"
      by blast
  }
  {
    assume "CHR ''='' \<notin> set p"
    then show "param_value p = []" by (simp add: param_value_def split_no_separator)
  }
  {
    assume a: "CHR ''='' \<notin> set x \<and> CHR ''='' \<notin> set y"
    then have "split CHR ''='' (x @ ''='' @ y) = [x, y]"
      by (induction x) (auto simp: split_no_separator)
    then show "param_value (x @ ''='' @ y) = y" by (simp add: param_value_def)
  }
  {
    assume a: "srch = ''?restore=false'' \<and> decodeURIComponent h ''false'' = Some ''false''"
    have ps: "parameters ''?restore=false'' = [''restore=false'']" by (simp add: parameters_def)
    have pn: "param_name ''restore=false'' = ''restore''" by (simp add: param_name_def)
    have pv: "param_value ''restore=false'' = ''false''" by (simp add: param_value_def)
    from ap a have "s = assign (foldl fill opts (builtin_defaults bookPath)) ''restore'' (JStr ''false'')"
      by (simp add: ps apply_parameter_def pn pv)
    then have g: "get s ''restore'' = JStr ''false''" by (simp add: get_assign)
    then show "get s ''restore'' = JStr ''false''" .
    from g show "restore_enabled s" by (simp add: restore_enabled_def)
    from g show "restore_enabled (settings (snd (setBookKey h (get s ''bookPath'') (r\<lparr>settings := s\<rparr>))))"
      by (simp add: restore_enabled_def setBookKey_def Let_def get_assign)
  }
qed

lemma example_restore_false:
  "init_settings example_host ''?restore=false'' (JStr ''moby-dick.epub'') (JObj []) =
   Inr [(''bookPath'', JStr ''moby-dick.epub''),
        (''restore'', JStr ''false''), (''reload'', JBool False), (''bookmarks'', JUndefined),
        (''annotations'', JUndefined), (''contained'', JUndefined), (''bookKey'', JUndefined),
        (''styles'', JUndefined), (''reflowText'', JBool False), (''pagination'', JBool False),
        (''history'', JBool True), (''language'', JStr ''en'')]"
  by (simp add: init_settings_obj builtin_defaults_def fill_def prop_undefined_def
      object_prototype_def parameters_def apply_parameter_def param_name_def param_value_def
      assign_def example_host_def)

theorem query_values_are_strings_witness:
  "(\<exists>s. init_settings example_host ''?restore=false'' (JStr ''moby-dick.epub'') (JObj []) = Inr s
        \<and> get s ''restore'' = JStr ''false'' \<and> restore_enabled s)
   \<and> param_value ''pagination'' = []
   \<and> param_value ''restore=false'' = ''false''"
proof -
  note ok = example_restore_false
  have ne: "''?restore=false'' \<noteq> []" by simp
  have dec: "decodeURIComponent example_host ''false'' = Some ''false''"
    by (simp add: example_host_def)
  note t = query_values_are_strings[OF ok ne, of "''pagination''" "''restore''" "''false''"]
  from t dec have "get [(''bookPath'', JStr ''moby-dick.epub''),
        (''restore'', JStr ''false''), (''reload'', JBool False), (''bookmarks'', JUndefined),
        (''annotations'', JUndefined), (''contained'', JUndefined), (''bookKey'', JUndefined),
        (''styles'', JUndefined), (''reflowText'', JBool False), (''pagination'', JBool False),
        (''history'', JBool True), (''language'', JStr ''en'')] ''restore'' = JStr ''false''
     \<and> restore_enabled [(''bookPath'', JStr ''moby-dick.epub''),
        (''restore'', JStr ''false''), (''reload'', JBool False), (''bookmarks'', JUndefined),
        (''annotations'', JUndefined), (''contained'', JUndefined), (''bookKey'', JUndefined),
        (''styles'', JUndefined), (''reflowText'', JBool False), (''pagination'', JBool False),
        (''history'', JBool True), (''language'', JStr ''en'')]"
    by blast
  moreover from t have "param_value ''pagination'' = []" by simp
  moreover from t have "param_value ''restore=false'' = ''false''" by simp
  ultimately show ?thesis using ok by blast
qed

end
